theory Spec2Isabelle
  imports Main
begin

section \<open>Strings\<close>

text \<open>
  Go strings are byte sequences; they are modelled as \<open>string\<close> (a \<open>char list\<close>), and
  \<open>len\<close> is \<open>length\<close>.
\<close>

text \<open>\<open>strings.HasPrefix(s, sub)\<close>.\<close>

definition strings_HasPrefix :: "string \<Rightarrow> string \<Rightarrow> bool" where
  "strings_HasPrefix s sub = (take (length sub) s = sub)"

text \<open>
  \<open>strings.Index(s, sub)\<close>: the byte offset of the first instance of \<open>sub\<close> in \<open>s\<close>, or
  \<open>-1\<close>. \<open>find_first\<close> scans the offsets from the left.
\<close>

fun find_first :: "string \<Rightarrow> string \<Rightarrow> nat option" where
  "find_first [] sub = (if sub = [] then Some 0 else None)"
| "find_first (c # s) sub =
     (if strings_HasPrefix (c # s) sub then Some 0
      else map_option Suc (find_first s sub))"

definition strings_Index :: "string \<Rightarrow> string \<Rightarrow> int" where
  "strings_Index s sub = (case find_first s sub of None \<Rightarrow> - 1 | Some i \<Rightarrow> int i)"

text \<open>
  \<open>strings.LastIndex(s, sub)\<close>: the byte offset of the last instance of \<open>sub\<close> in \<open>s\<close>,
  or \<open>-1\<close>.
\<close>

fun find_last :: "string \<Rightarrow> string \<Rightarrow> nat option" where
  "find_last [] sub = (if sub = [] then Some 0 else None)"
| "find_last (c # s) sub =
     (case find_last s sub of
        Some i \<Rightarrow> Some (Suc i)
      | None \<Rightarrow> if strings_HasPrefix (c # s) sub then Some 0 else None)"

definition strings_LastIndex :: "string \<Rightarrow> string \<Rightarrow> int" where
  "strings_LastIndex s sub = (case find_last s sub of None \<Rightarrow> - 1 | Some i \<Rightarrow> int i)"

text \<open>\<open>strings.Contains(s, sub)\<close>.\<close>

definition strings_Contains :: "string \<Rightarrow> string \<Rightarrow> bool" where
  "strings_Contains s sub = (find_first s sub \<noteq> None)"

text \<open>
  The offsets at which \<open>sub\<close> occurs in \<open>s\<close>, overlapping occurrences included, in
  increasing order.
\<close>

definition occurrences :: "string \<Rightarrow> string \<Rightarrow> nat list" where
  "occurrences s sub = filter (\<lambda>i. strings_HasPrefix (drop i s) sub) [0..<Suc (length s)]"

section \<open>Messages, tool calls and tools\<close>

datatype MessageRole = User | Assistant | Tool | System

record ToolCall =
  tc_ID :: string
  tc_Name :: string
  tc_Input :: string
  tc_Type :: string

record ToolResult =
  tr_ToolCallID :: string
  tr_Content :: string
  tr_IsError :: bool

text \<open>
  \<open>tools.ToolResponse\<close>. \<open>NewTextResponse\<close> and \<open>NewTextErrorResponse\<close> build a text
  response with \<open>IsError\<close> false and true; \<open>WithResponseMetadata\<close> attaches the metadata.
\<close>

datatype Metadata =
  NoMetadata
  | EditResponseMetadata int int
  | WriteResponseMetadata string int int

record ToolResponse =
  rs_Type :: string
  rs_Content :: string
  rs_Metadata :: Metadata
  rs_IsError :: bool

definition NewTextResponse :: "string \<Rightarrow> ToolResponse" where
  "NewTextResponse c = \<lparr>rs_Type = ''text'', rs_Content = c, rs_Metadata = NoMetadata, rs_IsError = False\<rparr>"

definition NewTextErrorResponse :: "string \<Rightarrow> ToolResponse" where
  "NewTextErrorResponse c = \<lparr>rs_Type = ''text'', rs_Content = c, rs_Metadata = NoMetadata, rs_IsError = True\<rparr>"

definition WithResponseMetadata :: "ToolResponse \<Rightarrow> Metadata \<Rightarrow> ToolResponse" where
  "WithResponseMetadata r m = r\<lparr>rs_Metadata := m\<rparr>"

text \<open>
  A \<open>tools.BaseTool\<close> as the provider sees it: \<open>Info().Name\<close> and \<open>Run\<close>, which returns a
  response or a Go error (\<open>Inl\<close>) and acts on the state \<open>'s\<close> that the tools share.
\<close>

record 's BaseTool =
  tool_Name :: string
  tool_Run :: "string \<Rightarrow> 's \<Rightarrow> (string + ToolResponse) \<times> 's"

section \<open>The provider's tool dispatch (\<open>anthropicProvider.NewMessage\<close>)\<close>

text \<open>
  The body of one dispatched goroutine up to the critical section: the loop over
  \<open>a.tools\<close> that runs the first tool whose name matches and breaks. The result is
  \<open>(response, isError, found)\<close>, which start as \<open>("", false, false)\<close>.
\<close>

fun find_and_run :: "'s BaseTool list \<Rightarrow> ToolCall \<Rightarrow> 's \<Rightarrow> (string \<times> bool \<times> bool) \<times> 's" where
  "find_and_run [] toolCall s = (([], False, False), s)"
| "find_and_run (tool # tools) toolCall s =
     (if tool_Name tool = tc_Name toolCall then
        (case tool_Run tool (tc_Input toolCall) s of
           (Inl toolErr, s') \<Rightarrow> ((''error running tool: '' @ toolErr, True, True), s')
         | (Inr toolResult, s') \<Rightarrow> ((rs_Content toolResult, rs_IsError toolResult, True), s'))
      else find_and_run tools toolCall s)"

text \<open>
  The whole goroutine: after the loop, a call that found no tool gets the response
  \<open>tool not found: <name>\<close>; \<open>isError\<close> is left as the loop set it.
\<close>

definition run_task :: "'s BaseTool list \<Rightarrow> ToolCall \<Rightarrow> 's \<Rightarrow> ToolResult \<times> 's" where
  "run_task tools toolCall s =
     (case find_and_run tools toolCall s of
        ((response, isError, found), s') \<Rightarrow>
          (\<lparr>tr_ToolCallID = tc_ID toolCall,
            tr_Content = (if \<not> found then ''tool not found: '' @ tc_Name toolCall else response),
            tr_IsError = isError\<rparr>, s'))"

text \<open>
  \<open>anthropic.NewToolResultBlock(id, content, isError)\<close>, appended to
  \<open>anthropicToolResults\<close> in the critical section.
\<close>

datatype ToolResultBlock = NewToolResultBlock string string bool

text \<open>
  The goroutines of one round, in the order \<open>order\<close> in which they reach the critical
  section (a list of task indices). Each writes \<open>toolResults[index]\<close> and appends its
  block to \<open>anthropicToolResults\<close>. An index outside \<open>toolCalls\<close> is never dispatched and
  is skipped.
\<close>

fun run_tasks ::
  "'s BaseTool list \<Rightarrow> ToolCall list \<Rightarrow> nat list \<Rightarrow>
   ToolResult list \<times> ToolResultBlock list \<times> 's \<Rightarrow> ToolResult list \<times> ToolResultBlock list \<times> 's" where
  "run_tasks tools toolCalls [] st = st"
| "run_tasks tools toolCalls (index # order) (toolResults, anthropicToolResults, s) =
     (if index < length toolCalls then
        (case run_task tools (toolCalls ! index) s of
           (r, s') \<Rightarrow>
             run_tasks tools toolCalls order
               (toolResults[index := r],
                anthropicToolResults @
                  [NewToolResultBlock (tc_ID (toolCalls ! index)) (tr_Content r) (tr_IsError r)],
                s'))
      else run_tasks tools toolCalls order (toolResults, anthropicToolResults, s))"

text \<open>The zero value of \<open>message.ToolResult\<close>, with which \<open>make\<close> fills \<open>toolResults\<close>.\<close>

definition zero_ToolResult :: ToolResult where
  "zero_ToolResult = \<lparr>tr_ToolCallID = [], tr_Content = [], tr_IsError = False\<rparr>"

record Message =
  m_SessionID :: string
  m_Role :: MessageRole
  m_Content :: string
  m_ToolCalls :: "ToolCall list"
  m_ToolResults :: "ToolResult list"

record CreateMessageParams =
  cp_Role :: MessageRole
  cp_Content :: string
  cp_ToolCalls :: "ToolCall list"
  cp_ToolResults :: "ToolResult list"

text \<open>
  Modelled from the spec: the message store (\<open>app.Messages\<close>) is not part of the
  sources. Per the spec a store persists rows and every mutating operation commits
  once; \<open>Create\<close> appends one message to the session's rows. A store failure (the
  spec's \<open>Internal\<close> error) is the field \<open>ms_err\<close>: while it is set, \<open>Create\<close> returns
  that error and persists nothing.
\<close>

record MessageStore =
  ms_rows :: "Message list"
  ms_err :: "string option"

definition Messages_Create ::
  "MessageStore \<Rightarrow> string \<Rightarrow> CreateMessageParams \<Rightarrow> string + (Message \<times> MessageStore)" where
  "Messages_Create store sessionID p =
     (case ms_err store of
        Some e \<Rightarrow> Inl e
      | None \<Rightarrow>
          (let m = \<lparr>m_SessionID = sessionID, m_Role = cp_Role p, m_Content = cp_Content p,
                    m_ToolCalls = cp_ToolCalls p, m_ToolResults = cp_ToolResults p\<rparr>
           in Inr (m, store\<lparr>ms_rows := ms_rows store @ [m]\<rparr>)))"

text \<open>
  The parallel tool execution of one loop iteration: the goroutines run, \<open>wg.Wait()\<close>
  returns once all of them are done, and one tool message is created from
  \<open>toolResults\<close>. The result is the error returned (if any), the store, the blocks for
  the next request and the tools' state.
\<close>

definition dispatch ::
  "'s BaseTool list \<Rightarrow> string \<Rightarrow> ToolCall list \<Rightarrow> nat list \<Rightarrow> MessageStore \<Rightarrow> 's \<Rightarrow>
   string option \<times> MessageStore \<times> ToolResultBlock list \<times> 's" where
  "dispatch tools sessionID toolCalls order store s =
     (case run_tasks tools toolCalls order (replicate (length toolCalls) zero_ToolResult, [], s) of
        (toolResults, anthropicToolResults, s') \<Rightarrow>
          (case Messages_Create store sessionID
                  \<lparr>cp_Role = Tool, cp_Content = [], cp_ToolCalls = [], cp_ToolResults = toolResults\<rparr> of
             Inl err \<Rightarrow> (Some err, store, anthropicToolResults, s')
           | Inr (m, store') \<Rightarrow> (None, store', anthropicToolResults, s')))"

section \<open>The file-record map and the file system\<close>

text \<open>
  A \<open>time.Time\<close> is modelled as its distance from the zero time, an integer count of
  clock units: \<open>t.IsZero()\<close> is \<open>t = 0\<close> and \<open>t.After(u)\<close> is \<open>u < t\<close>.
\<close>

record fileRecord =
  fr_path :: string
  fr_readTime :: int
  fr_writeTime :: int

text \<open>
  What \<open>os.Stat\<close> finds at a path: nothing (the path is not in \<open>files\<close>, the
  \<open>IsNotExist\<close> error), a directory, a regular file with its content and modification
  time, or an error other than \<open>IsNotExist\<close>.
\<close>

datatype node = Dir | File string int | StatError string

text \<open>
  The state the tools act on: the file system, the process-wide \<open>fileRecords\<close> map and
  the clock. \<open>ticks\<close> are the amounts by which the clock advances at the successive
  calls of \<open>time.Now()\<close>; they are not negative, as readings of Go's monotonic clock.
\<close>

record world =
  files :: "string \<rightharpoonup> node"
  fileRecords :: "string \<rightharpoonup> fileRecord"
  clock :: int
  ticks :: "nat list"

definition time_Now :: "world \<Rightarrow> int \<times> world" where
  "time_Now w =
     (clock w,
      w\<lparr>clock := clock w + (case ticks w of [] \<Rightarrow> 0 | d # _ \<Rightarrow> int d), ticks := tl (ticks w)\<rparr>)"

definition recordFileRead :: "string \<Rightarrow> world \<Rightarrow> world" where
  "recordFileRead path w =
     (case time_Now w of
        (now, w') \<Rightarrow>
          (let record = (case fileRecords w' path of
                           None \<Rightarrow> \<lparr>fr_path = path, fr_readTime = 0, fr_writeTime = 0\<rparr>
                         | Some r \<Rightarrow> r)
           in w'\<lparr>fileRecords := (fileRecords w')(path \<mapsto> record\<lparr>fr_readTime := now\<rparr>)\<rparr>))"

definition getLastReadTime :: "string \<Rightarrow> world \<Rightarrow> int" where
  "getLastReadTime path w =
     (case fileRecords w path of None \<Rightarrow> 0 | Some record \<Rightarrow> fr_readTime record)"

definition recordFileWrite :: "string \<Rightarrow> world \<Rightarrow> world" where
  "recordFileWrite path w =
     (case time_Now w of
        (now, w') \<Rightarrow>
          (let record = (case fileRecords w' path of
                           None \<Rightarrow> \<lparr>fr_path = path, fr_readTime = 0, fr_writeTime = 0\<rparr>
                         | Some r \<Rightarrow> r)
           in w'\<lparr>fileRecords := (fileRecords w')(path \<mapsto> record\<lparr>fr_writeTime := now\<rparr>)\<rparr>))"

record CreatePermissionRequest =
  pr_Path :: string
  pr_ToolName :: string
  pr_Action :: string
  pr_Description :: string
  pr_FilePath :: string
  pr_Diff :: string

text \<open>
  What a tool run gets from outside the tool sources: the configuration, the context
  values, the permission service's answer, the diff engine
  (\<open>git.GenerateGitDiffWithStats\<close>, returning the diff with its additions and removals,
  or an error), the errors of the operating system calls (\<open>None\<close>: the call succeeds),
  the LSP diagnostics text, and the library functions \<open>Time.Format(time.RFC3339)\<close>,
  \<open>filepath.Join\<close> and \<open>filepath.Dir\<close>.
\<close>

record env =
  WorkingDirectory :: string
  sessionID :: string
  messageID :: string
  permissions_Request :: "CreatePermissionRequest \<Rightarrow> bool"
  GenerateGitDiffWithStats :: "string \<Rightarrow> string \<Rightarrow> string \<Rightarrow> string + (string \<times> int \<times> int)"
  ReadFile_err :: "string \<Rightarrow> string option"
  WriteFile_err :: "string \<Rightarrow> string option"
  MkdirAll_err :: "string \<Rightarrow> string option"
  getDiagnostics :: "string \<Rightarrow> string"
  Format_RFC3339 :: "int \<Rightarrow> string"
  filepath_Join :: "string \<Rightarrow> string \<Rightarrow> string"
  filepath_Dir :: "string \<Rightarrow> string"

text \<open>\<open>filepath.IsAbs\<close> on Unix: the path starts with a slash.\<close>

definition filepath_IsAbs :: "string \<Rightarrow> bool" where
  "filepath_IsAbs path = strings_HasPrefix path ''/''"

text \<open>
  The step with which both \<open>Run\<close> functions make the path absolute: a path that is not
  absolute is joined to the working directory.
\<close>

definition absolute_path :: "env \<Rightarrow> string \<Rightarrow> string" where
  "absolute_path e path =
     (if \<not> filepath_IsAbs path then filepath_Join e (WorkingDirectory e) path else path)"

definition removeWorkingDirectoryPrefix :: "env \<Rightarrow> string \<Rightarrow> string" where
  "removeWorkingDirectoryPrefix e path =
     (let wd = WorkingDirectory e
      in if length path > length wd \<and> take (length wd) path = wd
         then drop (length wd + 1) path else path)"

text \<open>\<open>os.ReadFile\<close> of a path: the content of a regular file, unless the call fails.\<close>

definition os_ReadFile :: "env \<Rightarrow> string \<Rightarrow> world \<Rightarrow> string + string" where
  "os_ReadFile e path w =
     (case ReadFile_err e path of
        Some err \<Rightarrow> Inl err
      | None \<Rightarrow>
          (case files w path of
             Some (File content modTime) \<Rightarrow> Inr content
           | _ \<Rightarrow> Inl ''read failed''))"

text \<open>
  \<open>os.WriteFile\<close>: unless the call fails, the path holds the new content, modified at
  the current clock reading.
\<close>

definition os_WriteFile :: "env \<Rightarrow> string \<Rightarrow> string \<Rightarrow> world \<Rightarrow> string + world" where
  "os_WriteFile e path content w =
     (case WriteFile_err e path of
        Some err \<Rightarrow> Inl err
      | None \<Rightarrow>
          (case files w path of
             Some Dir \<Rightarrow> Inl ''is a directory''
           | Some (StatError err) \<Rightarrow> Inl err
           | _ \<Rightarrow> Inr (w\<lparr>files := (files w)(path \<mapsto> File content (clock w))\<rparr>)))"

text \<open>
  \<open>os.MkdirAll\<close> of the parent directory: unless the call fails, the directory exists
  afterwards. Only the directory itself is entered in \<open>files\<close>, not its ancestors.
\<close>

definition os_MkdirAll :: "env \<Rightarrow> string \<Rightarrow> world \<Rightarrow> string + world" where
  "os_MkdirAll e dir w =
     (case MkdirAll_err e dir of
        Some err \<Rightarrow> Inl err
      | None \<Rightarrow>
          (case files w dir of
             None \<Rightarrow> Inr (w\<lparr>files := (files w)(dir \<mapsto> Dir)\<rparr>)
           | Some Dir \<Rightarrow> Inr w
           | Some (File content modTime) \<Rightarrow> Inl ''not a directory''
           | Some (StatError err) \<Rightarrow> Inl err))"

section \<open>The edit tool\<close>

record EditParams =
  ep_FilePath :: string
  ep_OldString :: string
  ep_NewString :: string

record editResponse =
  er_text :: string
  er_additions :: int
  er_removals :: int

definition must_read_message :: string where
  "must_read_message = ''you must read the file before editing it. Use the View tool first''"

definition not_found_message :: string where
  "not_found_message =
     ''old_string not found in file. Make sure it matches exactly, including whitespace and line breaks''"

definition multiple_message :: string where
  "multiple_message =
     ''old_string appears multiple times in the file. Please provide more context to ensure a unique match''"

text \<open>The staleness error of \<open>replaceContent\<close> and \<open>deleteContent\<close>.\<close>

definition edit_stale_message :: "env \<Rightarrow> string \<Rightarrow> int \<Rightarrow> int \<Rightarrow> string" where
  "edit_stale_message e filePath modTime lastRead =
     ''file '' @ filePath @ '' has been modified since it was last read (mod time: '' @
     Format_RFC3339 e modTime @ '', last read: '' @ Format_RFC3339 e lastRead @ '')''"

definition edit_permission ::
  "env \<Rightarrow> string \<Rightarrow> string \<Rightarrow> string \<Rightarrow> string \<Rightarrow> CreatePermissionRequest" where
  "edit_permission e filePath action description diff =
     \<lparr>pr_Path = filepath_Dir e filePath, pr_ToolName = ''edit'', pr_Action = action,
      pr_Description = description @ filePath, pr_FilePath = filePath, pr_Diff = diff\<rparr>"

definition createNewFile :: "env \<Rightarrow> string \<Rightarrow> string \<Rightarrow> world \<Rightarrow> (string + editResponse) \<times> world" where
  "createNewFile e filePath content w =
     (case files w filePath of
        Some Dir \<Rightarrow> (Inl (''path is a directory, not a file: '' @ filePath), w)
      | Some (File c modTime) \<Rightarrow>
          (Inl (''file already exists: '' @ filePath @
                ''. Use the Replace tool to overwrite an existing file''), w)
      | Some (StatError err) \<Rightarrow> (Inl (''failed to access file: '' @ err), w)
      | None \<Rightarrow>
          (case os_MkdirAll e (filepath_Dir e filePath) w of
             Inl err \<Rightarrow> (Inl (''failed to create parent directories: '' @ err), w)
           | Inr w1 \<Rightarrow>
               if sessionID e = [] \<or> messageID e = [] then
                 (Inl ''session ID and message ID are required for creating a new file'', w1)
               else
                 (case GenerateGitDiffWithStats e (removeWorkingDirectoryPrefix e filePath) [] content of
                    Inl err \<Rightarrow> (Inl (''failed to get file diff: '' @ err), w1)
                  | Inr (diff, additions, removals) \<Rightarrow>
                      if \<not> permissions_Request e (edit_permission e filePath ''create'' ''Create file '' diff)
                      then (Inl ''permission denied'', w1)
                      else
                        (case os_WriteFile e filePath content w1 of
                           Inl err \<Rightarrow> (Inl (''failed to write file: '' @ err), w1)
                         | Inr w2 \<Rightarrow>
                             (Inr \<lparr>er_text = ''File created: '' @ filePath,
                                   er_additions = additions, er_removals = removals\<rparr>,
                              recordFileRead filePath (recordFileWrite filePath w2))))))"

text \<open>
  The part that \<open>deleteContent\<close> and \<open>replaceContent\<close> share word for word, from the
  session check to the end: the diff, the permission request, the write and the two
  records. \<open>action\<close>, \<open>description\<close> and \<open>text\<close> are the strings in which the two differ.
\<close>

definition write_edit ::
  "env \<Rightarrow> string \<Rightarrow> string \<Rightarrow> string \<Rightarrow> string \<Rightarrow> string \<Rightarrow> string \<Rightarrow> world \<Rightarrow>
   (string + editResponse) \<times> world" where
  "write_edit e filePath action description text oldContent newContent w =
     (if sessionID e = [] \<or> messageID e = [] then
        (Inl ''session ID and message ID are required for creating a new file'', w)
      else
        (case GenerateGitDiffWithStats e (removeWorkingDirectoryPrefix e filePath) oldContent newContent of
           Inl err \<Rightarrow> (Inl (''failed to get file diff: '' @ err), w)
         | Inr (diff, additions, removals) \<Rightarrow>
             if \<not> permissions_Request e (edit_permission e filePath action description diff)
             then (Inl ''permission denied'', w)
             else
               (case os_WriteFile e filePath newContent w of
                  Inl err \<Rightarrow> (Inl (''failed to write file: '' @ err), w)
                | Inr w1 \<Rightarrow>
                    (Inr \<lparr>er_text = text @ filePath,
                          er_additions = additions, er_removals = removals\<rparr>,
                     recordFileRead filePath (recordFileWrite filePath w1)))))"

definition deleteContent :: "env \<Rightarrow> string \<Rightarrow> string \<Rightarrow> world \<Rightarrow> (string + editResponse) \<times> world" where
  "deleteContent e filePath oldString w =
     (case files w filePath of
        None \<Rightarrow> (Inl (''file not found: '' @ filePath), w)
      | Some (StatError err) \<Rightarrow> (Inl (''failed to access file: '' @ err), w)
      | Some Dir \<Rightarrow> (Inl (''path is a directory, not a file: '' @ filePath), w)
      | Some (File c modTime) \<Rightarrow>
          if getLastReadTime filePath w = 0 then (Inl must_read_message, w)
          else
            (let lastRead = getLastReadTime filePath w
             in if lastRead < modTime then (Inl (edit_stale_message e filePath modTime lastRead), w)
                else
                  (case os_ReadFile e filePath w of
                     Inl err \<Rightarrow> (Inl (''failed to read file: '' @ err), w)
                   | Inr oldContent \<Rightarrow>
                       (let index = strings_Index oldContent oldString
                        in if index = - 1 then (Inl not_found_message, w)
                           else
                             (let lastIndex = strings_LastIndex oldContent oldString
                              in if index \<noteq> lastIndex then (Inl multiple_message, w)
                                 else
                                   write_edit e filePath ''delete'' ''Delete content from file ''
                                     ''Content deleted from file: '' oldContent
                                     (take (nat index) oldContent @
                                      drop (nat index + length oldString) oldContent) w)))))"

definition replaceContent ::
  "env \<Rightarrow> string \<Rightarrow> string \<Rightarrow> string \<Rightarrow> world \<Rightarrow> (string + editResponse) \<times> world" where
  "replaceContent e filePath oldString newString w =
     (case files w filePath of
        None \<Rightarrow> (Inl (''file not found: '' @ filePath), w)
      | Some (StatError err) \<Rightarrow> (Inl (''failed to access file: '' @ err), w)
      | Some Dir \<Rightarrow> (Inl (''path is a directory, not a file: '' @ filePath), w)
      | Some (File c modTime) \<Rightarrow>
          if getLastReadTime filePath w = 0 then (Inl must_read_message, w)
          else
            (let lastRead = getLastReadTime filePath w
             in if lastRead < modTime then (Inl (edit_stale_message e filePath modTime lastRead), w)
                else
                  (case os_ReadFile e filePath w of
                     Inl err \<Rightarrow> (Inl (''failed to read file: '' @ err), w)
                   | Inr oldContent \<Rightarrow>
                       (let index = strings_Index oldContent oldString
                        in if index = - 1 then (Inl not_found_message, w)
                           else
                             (let lastIndex = strings_LastIndex oldContent oldString
                              in if index \<noteq> lastIndex then (Inl multiple_message, w)
                                 else
                                   write_edit e filePath ''replace'' ''Replace content in file ''
                                     ''Content replaced in file: '' oldContent
                                     (take (nat index) oldContent @ newString @
                                      drop (nat index + length oldString) oldContent) w)))))"

text \<open>
  \<open>editTool.Run\<close>. The input is the unmarshalled parameters, or \<open>Inl\<close> when
  \<open>json.Unmarshal\<close> fails. The Go error returned is always nil, so the result is the
  response. \<open>waitForLspDiagnostics\<close> only waits.
\<close>

definition edit_Run :: "env \<Rightarrow> string + EditParams \<Rightarrow> world \<Rightarrow> ToolResponse \<times> world" where
  "edit_Run e input w =
     (case input of
        Inl err \<Rightarrow> (NewTextErrorResponse ''invalid parameters'', w)
      | Inr params \<Rightarrow>
          if ep_FilePath params = [] then (NewTextErrorResponse ''file_path is required'', w)
          else
            (let filePath = absolute_path e (ep_FilePath params)
             in if ep_OldString params = [] then
                  (case createNewFile e filePath (ep_NewString params) w of
                     (Inl err, w') \<Rightarrow> (NewTextErrorResponse (''error creating file: '' @ err), w')
                   | (Inr result, w') \<Rightarrow>
                       (WithResponseMetadata (NewTextResponse (er_text result))
                          (EditResponseMetadata (er_additions result) (er_removals result)), w'))
                else if ep_NewString params = [] then
                  (case deleteContent e filePath (ep_OldString params) w of
                     (Inl err, w') \<Rightarrow> (NewTextErrorResponse (''error deleting content: '' @ err), w')
                   | (Inr result, w') \<Rightarrow>
                       (WithResponseMetadata (NewTextResponse (er_text result))
                          (EditResponseMetadata (er_additions result) (er_removals result)), w'))
                else
                  (case replaceContent e filePath (ep_OldString params) (ep_NewString params) w of
                     (Inl err, w') \<Rightarrow> (NewTextErrorResponse (''error replacing content: '' @ err), w')
                   | (Inr result, w') \<Rightarrow>
                       (WithResponseMetadata
                          (NewTextResponse (''<result>'' @ [CHR 0x0A] @ er_text result @ [CHR 0x0A] @
                                            ''</result>'' @ [CHR 0x0A] @ getDiagnostics e filePath))
                          (EditResponseMetadata (er_additions result) (er_removals result)), w'))))"

section \<open>The write tool\<close>

record WriteParams =
  wp_FilePath :: string
  wp_Content :: string

text \<open>The staleness response of the write tool.\<close>

definition write_stale_message :: "env \<Rightarrow> string \<Rightarrow> int \<Rightarrow> int \<Rightarrow> string" where
  "write_stale_message e filePath modTime lastRead =
     ''File '' @ filePath @ '' has been modified since it was last read.'' @ [CHR 0x0A] @
     ''Last modification: '' @ Format_RFC3339 e modTime @ [CHR 0x0A] @
     ''Last read: '' @ Format_RFC3339 e lastRead @ [CHR 0x0A, CHR 0x0A] @
     ''Please read the file again before modifying it.''"

definition same_content_message :: "string \<Rightarrow> string" where
  "same_content_message filePath =
     ''File '' @ filePath @ '' already contains the exact content. No changes made.''"

text \<open>
  The first part of \<open>writeTool.Run\<close>, the checks on what \<open>os.Stat\<close> found: \<open>Some\<close> is
  the value returned at once (a response, or \<open>Inl\<close> a Go error), \<open>None\<close> lets the run go
  on.
\<close>

definition write_checks :: "env \<Rightarrow> string \<Rightarrow> string \<Rightarrow> world \<Rightarrow> (string + ToolResponse) option" where
  "write_checks e filePath content w =
     (case files w filePath of
        Some Dir \<Rightarrow>
          Some (Inr (NewTextErrorResponse (''Path is a directory, not a file: '' @ filePath)))
      | Some (File c modTime) \<Rightarrow>
          (let lastRead = getLastReadTime filePath w
           in if lastRead < modTime
              then Some (Inr (NewTextErrorResponse (write_stale_message e filePath modTime lastRead)))
              else
                (case os_ReadFile e filePath w of
                   Inr oldContent \<Rightarrow>
                     if oldContent = content
                     then Some (Inr (NewTextErrorResponse (same_content_message filePath)))
                     else None
                 | Inl readErr \<Rightarrow> None))
      | Some (StatError err) \<Rightarrow> Some (Inl (''error checking file: '' @ err))
      | None \<Rightarrow> None)"

text \<open>
  \<open>writeTool.Run\<close>. The result is a response, or \<open>Inl\<close> the Go error returned.
  \<open>permission.ErrorPermissionDenied\<close> is declared outside the sources; its text is the
  spec's \<open>permission denied\<close>.
\<close>

definition write_Run ::
  "env \<Rightarrow> string + WriteParams \<Rightarrow> world \<Rightarrow> (string + ToolResponse) \<times> world" where
  "write_Run e input w =
     (case input of
        Inl err \<Rightarrow> (Inr (NewTextErrorResponse (''error parsing parameters: '' @ err)), w)
      | Inr params \<Rightarrow>
          if wp_FilePath params = [] then (Inr (NewTextErrorResponse ''file_path is required''), w)
          else if wp_Content params = [] then (Inr (NewTextErrorResponse ''content is required''), w)
          else
            (let filePath = absolute_path e (wp_FilePath params)
             in case write_checks e filePath (wp_Content params) w of
                  Some r \<Rightarrow> (r, w)
                | None \<Rightarrow>
                    (case os_MkdirAll e (filepath_Dir e filePath) w of
                       Inl err \<Rightarrow> (Inl (''error creating directory: '' @ err), w)
                     | Inr w1 \<Rightarrow>
                         (let oldContent =
                                (case files w filePath of
                                   Some (File c modTime) \<Rightarrow>
                                     (case os_ReadFile e filePath w1 of
                                        Inr oldBytes \<Rightarrow> oldBytes
                                      | Inl readErr \<Rightarrow> [])
                                 | _ \<Rightarrow> [])
                          in if sessionID e = [] \<or> messageID e = [] then
                               (Inl ''session_id and message_id are required'', w1)
                             else
                               (case GenerateGitDiffWithStats e
                                       (removeWorkingDirectoryPrefix e filePath) oldContent
                                       (wp_Content params) of
                                  Inl err \<Rightarrow> (Inl (''error generating diff: '' @ err), w1)
                                | Inr (diff, additions, removals) \<Rightarrow>
                                    if \<not> permissions_Request e
                                           \<lparr>pr_Path = filePath, pr_ToolName = ''write'',
                                            pr_Action = ''create'',
                                            pr_Description = ''Create file '' @ filePath,
                                            pr_FilePath = filePath, pr_Diff = diff\<rparr>
                                    then (Inl ''permission denied'', w1)
                                    else
                                      (case os_WriteFile e filePath (wp_Content params) w1 of
                                         Inl err \<Rightarrow> (Inl (''error writing file: '' @ err), w1)
                                       | Inr w2 \<Rightarrow>
                                           (Inr (WithResponseMetadata
                                                   (NewTextResponse
                                                      (''<result>'' @ [CHR 0x0A] @
                                                       ''File successfully written: '' @ filePath @
                                                       [CHR 0x0A] @ ''</result>'' @
                                                       getDiagnostics e filePath))
                                                   (WriteResponseMetadata diff additions removals)),
                                            recordFileRead filePath
                                              (recordFileWrite filePath w2))))))))"

section \<open>The provider client's retry policy\<close>












section \<open>The translation of the history (\<open>anthropicClient.convertMessages\<close>)\<close>

text \<open>
  A content block of a vendor message: a text block with its text and whether its
  \<open>CacheControl\<close> is set to \<open>ephemeral\<close>, a tool-use block with the id, the unmarshalled
  input and the name, or a tool-result block. \<open>'j\<close> is the type of unmarshalled JSON.
\<close>

datatype 'j ContentBlockParamUnion =
  TextBlock string bool
  | ToolUseBlock string 'j string
  | ToolResultBlock string string bool

text \<open>\<open>anthropic.NewUserMessage\<close> and \<open>anthropic.NewAssistantMessage\<close> set the role.\<close>

record 'j MessageParam =
  mp_Role :: MessageRole
  mp_Content :: "'j ContentBlockParamUnion list"

text \<open>
  The tool-use blocks of an assistant message: a tool call whose input does not
  unmarshal (\<open>unmarshal\<close> gives \<open>None\<close>) is skipped.
\<close>

fun tool_use_blocks :: "(string \<Rightarrow> 'j option) \<Rightarrow> ToolCall list \<Rightarrow> 'j ContentBlockParamUnion list" where
  "tool_use_blocks unmarshal [] = []"
| "tool_use_blocks unmarshal (toolCall # toolCalls) =
     (case unmarshal (tc_Input toolCall) of
        None \<Rightarrow> tool_use_blocks unmarshal toolCalls
      | Some inputMap \<Rightarrow>
          ToolUseBlock (tc_ID toolCall) inputMap (tc_Name toolCall) #
          tool_use_blocks unmarshal toolCalls)"

text \<open>
  The loop of \<open>convertMessages\<close> over the messages, with the counter \<open>cachedBlocks\<close>. A
  message whose role is none of user, assistant and tool adds nothing.
\<close>

fun convert_loop ::
  "bool \<Rightarrow> (string \<Rightarrow> 'j option) \<Rightarrow> Message list \<Rightarrow> nat \<Rightarrow> 'j MessageParam list" where
  "convert_loop disableCache unmarshal [] cachedBlocks = []"
| "convert_loop disableCache unmarshal (msg # messages) cachedBlocks =
     (case m_Role msg of
        User \<Rightarrow>
          if cachedBlocks < 2 \<and> \<not> disableCache then
            \<lparr>mp_Role = User, mp_Content = [TextBlock (m_Content msg) True]\<rparr> #
            convert_loop disableCache unmarshal messages (cachedBlocks + 1)
          else
            \<lparr>mp_Role = User, mp_Content = [TextBlock (m_Content msg) False]\<rparr> #
            convert_loop disableCache unmarshal messages cachedBlocks
      | Assistant \<Rightarrow>
          (let mark = (m_Content msg \<noteq> [] \<and> cachedBlocks < 2 \<and> \<not> disableCache);
               blocks = (if m_Content msg \<noteq> [] then [TextBlock (m_Content msg) mark] else []) @
                        tool_use_blocks unmarshal (m_ToolCalls msg);
               cachedBlocks' = (if mark then cachedBlocks + 1 else cachedBlocks)
           in if length blocks = 0 then convert_loop disableCache unmarshal messages cachedBlocks'
              else \<lparr>mp_Role = Assistant, mp_Content = blocks\<rparr> #
                   convert_loop disableCache unmarshal messages cachedBlocks')
      | Tool \<Rightarrow>
          \<lparr>mp_Role = User,
           mp_Content = map (\<lambda>toolResult. ToolResultBlock (tr_ToolCallID toolResult)
                                 (tr_Content toolResult) (tr_IsError toolResult))
                            (m_ToolResults msg)\<rparr> #
          convert_loop disableCache unmarshal messages cachedBlocks
      | System \<Rightarrow> convert_loop disableCache unmarshal messages cachedBlocks)"

definition convertMessages ::
  "bool \<Rightarrow> (string \<Rightarrow> 'j option) \<Rightarrow> Message list \<Rightarrow> 'j MessageParam list" where
  "convertMessages disableCache unmarshal messages = convert_loop disableCache unmarshal messages 0"

text \<open>
  The cache hints of the text blocks of a converted history, in the order of the
  history: \<open>True\<close> for a block that carries the ephemeral hint.
\<close>

fun block_hints :: "'j ContentBlockParamUnion list \<Rightarrow> bool list" where
  "block_hints [] = []"
| "block_hints (TextBlock text hint # blocks) = hint # block_hints blocks"
| "block_hints (block # blocks) = block_hints blocks"

definition text_hints :: "'j MessageParam list \<Rightarrow> bool list" where
  "text_hints ms = concat (map (\<lambda>m. block_hints (mp_Content m)) ms)"

text \<open>An example message: a user message with the given text.\<close>

definition user_text :: "string \<Rightarrow> Message" where
  "user_text c = \<lparr>m_SessionID = ''s1'', m_Role = User, m_Content = c, m_ToolCalls = [], m_ToolResults = []\<rparr>"

section \<open>Title generation (\<open>anthropicProvider.NewMessage\<close>, \<open>generateSessionTitle\<close>)\<close>

text \<open>
  \<open>models.Model\<close> and the table \<open>models.SupportedModels\<close>; the four cost fields
  (\<open>float64\<close>) are left out. A lookup of an id that is not in the Go map gives the zero
  value.
\<close>

record Model =
  md_ID :: string
  md_Name :: string
  md_Provider :: string
  md_APIModel :: string

definition SupportedModels :: "string \<Rightarrow> Model" where
  "SupportedModels modelID =
     (if modelID = ''claude-3.5-sonnet'' then
        \<lparr>md_ID = ''claude-3.5-sonnet'', md_Name = ''Claude 3.5 Sonnet'',
         md_Provider = ''anthropic'', md_APIModel = ''claude-3-5-sonnet-latest''\<rparr>
      else if modelID = ''claude-3-haiku'' then
        \<lparr>md_ID = ''claude-3-haiku'', md_Name = ''Claude 3 Haiku'',
         md_Provider = ''anthropic'', md_APIModel = ''claude-3-haiku-latest''\<rparr>
      else if modelID = ''claude-3.7-sonnet'' then
        \<lparr>md_ID = ''claude-3.7-sonnet'', md_Name = ''Claude 3.7 Sonnet'',
         md_Provider = ''anthropic'', md_APIModel = ''claude-3-7-sonnet-latest''\<rparr>
      else \<lparr>md_ID = [], md_Name = [], md_Provider = [], md_APIModel = []\<rparr>)"

definition titleSystemMessage :: string where
  "titleSystemMessage =
     ''You will generate a short title based on the first message a user begins a conversation with'' @
     [CHR 0x0A] @ ''- ensure it is not more than 50 characters long'' @
     [CHR 0x0A] @ ''- the title should be a summary of the user's message'' @
     [CHR 0x0A] @ ''- do not use quotes or colons'' @
     [CHR 0x0A] @ ''- the entire text you return will be used as the title''"

text \<open>
  The request of \<open>generateSessionTitle\<close>: the model, \<open>MaxTokens\<close>, one user message with
  one text block, and one system text block, whose cache control is ephemeral.
\<close>

record TitleRequest =
  rq_Model :: string
  rq_MaxTokens :: int
  rq_Messages :: "string list"
  rq_System :: string

text \<open>
  \<open>generateSessionTitle\<close>. \<open>client\<close> is \<open>a.client.Messages.New\<close> under the context it is
  given: it returns an error (also when the context's deadline passes) or the texts of
  the content blocks of the response. \<open>bigModel\<close> is the configuration value
  \<open>models.big\<close>.
\<close>

definition generateSessionTitle ::
  "(TitleRequest \<Rightarrow> string + string list) \<Rightarrow> string \<Rightarrow> string \<Rightarrow> string + string" where
  "generateSessionTitle client bigModel userMessage =
     (let model = md_APIModel (SupportedModels bigModel)
      in case client \<lparr>rq_Model = model, rq_MaxTokens = 5000, rq_Messages = [userMessage],
                      rq_System = titleSystemMessage\<rparr> of
           Inl err \<Rightarrow> Inl err
         | Inr content \<Rightarrow> Inr (concat content))"

record Session =
  s_ID :: string
  s_Title :: string
  s_PromptTokens :: int
  s_CompletionTokens :: int

text \<open>
  Modelled from the spec: the session store (\<open>app.Sessions\<close>) is not part of the
  sources. Per the spec it holds the sessions by id, \<open>Get\<close> returns the session of an id
  and \<open>Save\<close> commits the session given. While \<open>ss_err\<close> is set every operation fails
  with that error.
\<close>

record SessionStore =
  ss_rows :: "string \<rightharpoonup> Session"
  ss_err :: "string option"

definition Sessions_Get :: "SessionStore \<Rightarrow> string \<Rightarrow> string + Session" where
  "Sessions_Get store sid =
     (case ss_err store of
        Some e \<Rightarrow> Inl e
      | None \<Rightarrow> (case ss_rows store sid of None \<Rightarrow> Inl ''session not found'' | Some s \<Rightarrow> Inr s))"

definition Sessions_Save :: "SessionStore \<Rightarrow> Session \<Rightarrow> string + (Session \<times> SessionStore)" where
  "Sessions_Save store s =
     (case ss_err store of
        Some e \<Rightarrow> Inl e
      | None \<Rightarrow> Inr (s, store\<lparr>ss_rows := (ss_rows store)(s_ID s \<mapsto> s)\<rparr>))"

text \<open>
  Modelled from the spec: \<open>Messages.List\<close> of the message store, the messages of the
  session in the order in which they were created.
\<close>

definition Messages_List :: "MessageStore \<Rightarrow> string \<Rightarrow> string + Message list" where
  "Messages_List store sid =
     (case ms_err store of
        Some e \<Rightarrow> Inl e
      | None \<Rightarrow> Inr (filter (\<lambda>m. m_SessionID m = sid) (ms_rows store)))"

text \<open>
  The body of the goroutine that \<open>NewMessage\<close> starts for the title. \<open>client\<close> takes the
  timeout of the context in seconds, here that of
  \<open>context.WithTimeout(context.Background(), 30*time.Second)\<close>. The result is the session
  store and the lines logged.
\<close>

definition title_task ::
  "(nat \<Rightarrow> TitleRequest \<Rightarrow> string + string list) \<Rightarrow> string \<Rightarrow> string \<Rightarrow> string \<Rightarrow>
   SessionStore \<Rightarrow> SessionStore \<times> string list" where
  "title_task client bigModel sid content sessions =
     (case generateSessionTitle (client 30) bigModel content of
        Inl generateErr \<Rightarrow> (sessions, [''failed to generate session title: '' @ generateErr])
      | Inr title \<Rightarrow>
          (case Sessions_Get sessions sid of
             Inl generateErr \<Rightarrow> (sessions, [])
           | Inr session \<Rightarrow>
               (case Sessions_Save sessions (session\<lparr>s_Title := title\<rparr>) of
                  Inl generateErr \<Rightarrow> (sessions, [''failed to set session title: '' @ generateErr])
                | Inr (saved, sessions') \<Rightarrow> (sessions', []))))"

text \<open>
  The beginning of \<open>NewMessage\<close>, up to the user message: the messages of the session
  are listed, the title goroutine is started when there are none, and the user message
  is created. The result tells whether the goroutine was started, and gives the error
  returned or the messages with the new one and the store.
\<close>

definition NewMessage_begin ::
  "MessageStore \<Rightarrow> string \<Rightarrow> string \<Rightarrow> bool \<times> (string + (Message list \<times> MessageStore))" where
  "NewMessage_begin store sid content =
     (case Messages_List store sid of
        Inl err \<Rightarrow> (False, Inl err)
      | Inr messages \<Rightarrow>
          (length messages = 0,
           (case Messages_Create store sid
                   \<lparr>cp_Role = User, cp_Content = content, cp_ToolCalls = [], cp_ToolResults = []\<rparr> of
              Inl err \<Rightarrow> Inl err
            | Inr (newMessage, store') \<Rightarrow> Inr (messages @ [newMessage], store'))))"

text \<open>
  An example: the session \<open>s1\<close> has no title and one message; the provider answers
  the title request with two blocks, or fails.
\<close>

definition ex_sessions :: SessionStore where
  "ex_sessions =
     \<lparr>ss_rows = [''s1'' \<mapsto> \<lparr>s_ID = ''s1'', s_Title = [], s_PromptTokens = 0, s_CompletionTokens = 0\<rparr>],
      ss_err = None\<rparr>"

definition ex_messages :: MessageStore where
  "ex_messages = \<lparr>ms_rows = [user_text ''hi''], ms_err = None\<rparr>"

definition ex_client :: "bool \<Rightarrow> nat \<Rightarrow> TitleRequest \<Rightarrow> string + string list" where
  "ex_client ok timeout request =
     (if ok \<and> timeout = 30 \<and> rq_Model request = ''claude-3-7-sonnet-latest'' \<and>
         rq_System request = titleSystemMessage
      then Inr [''Fix '', ''the build''] else Inl ''context deadline exceeded'')"

section \<open>The record after a write\<close>

text \<open>
  The record of a path after a mutating run, as claimed: the path has a record whose
  write time and read time are both set, the read not before the write.
\<close>

definition read_recorded_after_write :: "string \<Rightarrow> world \<Rightarrow> bool" where
  "read_recorded_after_write path w =
     (case fileRecords w path of
        None \<Rightarrow> False
      | Some r \<Rightarrow> fr_writeTime r \<noteq> 0 \<and> fr_readTime r \<noteq> 0 \<and> fr_writeTime r \<le> fr_readTime r)"

section \<open>An example environment and state\<close>

text \<open>
  A working directory \<open>/wd\<close> with one file \<open>/wd/a.txt\<close> holding \<open>hello\<close>, modified at
  time 5; the clock reads 9 and counts seconds from 2025-04-01T10:00:00Z on.
  \<open>ex_env permit\<close> answers every permission request with \<open>permit\<close>; \<open>ex_world lastRead\<close> has the file read at \<open>lastRead\<close>, or never read when
  \<open>lastRead\<close> is 0.
\<close>

definition ex_env :: "bool \<Rightarrow> env" where
  "ex_env permit =
     \<lparr>WorkingDirectory = ''/wd'', sessionID = ''s1'', messageID = ''m1'',
      permissions_Request = (\<lambda>req. permit),
      GenerateGitDiffWithStats = (\<lambda>name old new. Inr (''diff'', 1, 1)),
      ReadFile_err = (\<lambda>path. None), WriteFile_err = (\<lambda>path. None),
      MkdirAll_err = (\<lambda>path. None), getDiagnostics = (\<lambda>path. []),
      Format_RFC3339 = (\<lambda>t. if 0 < t \<and> t < 10
                             then ''2025-04-01T10:00:0'' @ [''0123456789'' ! nat t] @ ''Z''
                             else ''0001-01-01T00:00:00Z''),
      filepath_Join = (\<lambda>dir path. dir @ ''/'' @ path),
      filepath_Dir = (\<lambda>path. ''/wd'')\<rparr>"

definition ex_world :: "int \<Rightarrow> world" where
  "ex_world lastRead =
     \<lparr>files = [''/wd/a.txt'' \<mapsto> File ''hello'' 5],
      fileRecords = (if lastRead = 0 then Map.empty
                     else [''/wd/a.txt'' \<mapsto> \<lparr>fr_path = ''/wd/a.txt'', fr_readTime = lastRead, fr_writeTime = 0\<rparr>]),
      clock = 9, ticks = [1, 0]\<rparr>"

section \<open>Properties of the tool dispatch\<close>

lemma run_task_ToolCallID: "tr_ToolCallID (fst (run_task tools toolCall s)) = tc_ID toolCall"
  by (simp add: run_task_def split: prod.splits)

lemma run_tasks_results:
  "run_tasks tools calls order (rs, bs, s) = (rs', bs', s') \<Longrightarrow> length rs = length calls \<Longrightarrow>
   length rs' = length calls \<and>
   (\<forall>i < length calls. tr_ToolCallID (rs' ! i) =
      (if i \<in> set order then tc_ID (calls ! i) else tr_ToolCallID (rs ! i)))"
proof (induction order arbitrary: rs bs s)
  case Nil
  then show ?case by simp
next
  case (Cons index order)
  show ?case
  proof (cases "index < length calls")
    case False
    with Cons.prems have "run_tasks tools calls order (rs, bs, s) = (rs', bs', s')" by simp
    from Cons.IH[OF this Cons.prems(2)] False show ?thesis by auto
  next
    case True
    obtain r s1 where rt: "run_task tools (calls ! index) s = (r, s1)"
      by (cases "run_task tools (calls ! index) s")
    have rid: "tr_ToolCallID r = tc_ID (calls ! index)"
      using run_task_ToolCallID[of tools "calls ! index" s] rt by simp
    from Cons.prems(1) True rt
    have step: "run_tasks tools calls order
        (rs[index := r],
         bs @ [NewToolResultBlock (tc_ID (calls ! index)) (tr_Content r) (tr_IsError r)], s1)
        = (rs', bs', s')" by simp
    have len: "length (rs[index := r]) = length calls" using Cons.prems(2) by simp
    from Cons.IH[OF step len] True rid Cons.prems(2) show ?thesis
      by (auto simp: nth_list_update)
  qed
qed

text \<open>
  Claim C5. Whatever the order in which the goroutines of a round finish (\<open>order\<close>
  lists every task index), a round on a store that accepts the write persists exactly
  one message, of role tool, and the tool call ids of its results are the ids of the
  tool calls, in call order.
\<close>

theorem tool_message_preserves_call_order:
  assumes "set order = {0..<length toolCalls}"
    and "ms_err store = None"
    and "dispatch tools sid toolCalls order store s = (err, store', blocks, s')"
  shows "err = None \<and>
     (\<exists>m. ms_rows store' = ms_rows store @ [m] \<and> m_Role m = Tool \<and>
          map tr_ToolCallID (m_ToolResults m) = map tc_ID toolCalls)"
proof -
  obtain rs bs s1 where rt:
    "run_tasks tools toolCalls order (replicate (length toolCalls) zero_ToolResult, [], s) = (rs, bs, s1)"
    by (cases "run_tasks tools toolCalls order (replicate (length toolCalls) zero_ToolResult, [], s)")
  have "length (replicate (length toolCalls) zero_ToolResult) = length toolCalls" by simp
  from run_tasks_results[OF rt this] assms(1)
  have len: "length rs = length toolCalls"
    and ids: "\<forall>i < length toolCalls. tr_ToolCallID (rs ! i) = tc_ID (toolCalls ! i)" by auto
  have m: "map tr_ToolCallID rs = map tc_ID toolCalls"
    using len ids by (simp add: list_eq_iff_nth_eq)
  from assms(3) rt assms(2) m show ?thesis
    by (auto simp: dispatch_def Messages_Create_def Let_def)
qed

text \<open>
  The theorem at a round of two calls whose tasks finish in the reverse order. The one
  registered tool appends its input to the shared state, so the contents of the results
  depend on the order; the ids do not.
\<close>

theorem tool_message_preserves_call_order_witness:
  "\<exists>store' blocks s'.
     dispatch [\<lparr>tool_Name = ''ls'', tool_Run = (\<lambda>input s. (Inr (NewTextResponse (s @ input)), s @ input))\<rparr>]
       ''session''
       [\<lparr>tc_ID = ''a'', tc_Name = ''ls'', tc_Input = ''1'', tc_Type = ''tool_use''\<rparr>,
        \<lparr>tc_ID = ''b'', tc_Name = ''ls'', tc_Input = ''2'', tc_Type = ''tool_use''\<rparr>]
       [1, 0] \<lparr>ms_rows = [], ms_err = None\<rparr> [] = (None, store', blocks, s') \<and>
     (\<exists>m. ms_rows store' = [m] \<and> m_Role m = Tool \<and>
          map tr_ToolCallID (m_ToolResults m) = [''a'', ''b''])"
proof -
  let ?tools = "[\<lparr>tool_Name = ''ls'', tool_Run = (\<lambda>input s. (Inr (NewTextResponse (s @ input)), s @ input))\<rparr>]"
  let ?calls = "[\<lparr>tc_ID = ''a'', tc_Name = ''ls'', tc_Input = ''1'', tc_Type = ''tool_use''\<rparr>,
        \<lparr>tc_ID = ''b'', tc_Name = ''ls'', tc_Input = ''2'', tc_Type = ''tool_use''\<rparr>]"
  let ?store = "\<lparr>ms_rows = [], ms_err = None\<rparr>"
  obtain err store' blocks s' where d:
    "dispatch ?tools ''session'' ?calls [1, 0] ?store [] = (err, store', blocks, s')"
    by (cases "dispatch ?tools ''session'' ?calls [1, 0] ?store []")
  have h1: "set [1, 0] = {0..<length ?calls}" by auto
  have h2: "ms_err ?store = None" by simp
  from tool_message_preserves_call_order[OF h1 h2 d] d show ?thesis by simp
qed

text \<open>
  Claim C6, at a failing input. A tool call named \<open>nope\<close> dispatched against an empty
  tool list gets the content \<open>tool not found: nope\<close>, but the result is not marked as an
  error: \<open>isError\<close> is only set on the branch where a tool was found and its run failed.
\<close>

theorem missing_tool_not_marked_error:
  "run_task ([] :: unit BaseTool list)
     \<lparr>tc_ID = ''call_1'', tc_Name = ''nope'', tc_Input = ''{}'', tc_Type = ''tool_use''\<rparr> ()
   = (\<lparr>tr_ToolCallID = ''call_1'', tr_Content = ''tool not found: nope'', tr_IsError = False\<rparr>, ())"
  by (simp add: run_task_def)

section \<open>Properties of the string functions\<close>

lemma occurrences_iff:
  "i \<in> set (occurrences s sub) \<longleftrightarrow> i \<le> length s \<and> strings_HasPrefix (drop i s) sub"
  unfolding occurrences_def set_filter set_upt by auto

lemma distinct_occurrences: "distinct (occurrences s sub)"
  by (simp add: occurrences_def)

lemma find_first_None:
  "find_first s sub = None \<longleftrightarrow> (\<forall>i \<le> length s. \<not> strings_HasPrefix (drop i s) sub)"
proof (induction s)
  case Nil
  show ?case by (auto simp: strings_HasPrefix_def)
next
  case (Cons c s)
  show ?case
  proof
    assume a: "find_first (c # s) sub = None"
    then have np: "\<not> strings_HasPrefix (c # s) sub" and r: "find_first s sub = None"
      by (auto split: if_splits)
    show "\<forall>i \<le> length (c # s). \<not> strings_HasPrefix (drop i (c # s)) sub"
    proof (intro allI impI)
      fix i assume "i \<le> length (c # s)"
      then show "\<not> strings_HasPrefix (drop i (c # s)) sub"
        using np r Cons.IH by (cases i) auto
    qed
  next
    assume a: "\<forall>i \<le> length (c # s). \<not> strings_HasPrefix (drop i (c # s)) sub"
    then have "\<not> strings_HasPrefix (drop 0 (c # s)) sub" by blast
    then have np: "\<not> strings_HasPrefix (c # s) sub" by simp
    have "\<forall>i \<le> length s. \<not> strings_HasPrefix (drop i s) sub"
    proof (intro allI impI)
      fix i assume "i \<le> length s"
      then have "Suc i \<le> length (c # s)" by simp
      with a have "\<not> strings_HasPrefix (drop (Suc i) (c # s)) sub" by blast
      then show "\<not> strings_HasPrefix (drop i s) sub" by simp
    qed
    with Cons.IH have "find_first s sub = None" by simp
    with np show "find_first (c # s) sub = None" by simp
  qed
qed

lemma find_first_Some:
  "find_first s sub = Some i \<Longrightarrow>
   i \<le> length s \<and> strings_HasPrefix (drop i s) sub \<and> (\<forall>j < i. \<not> strings_HasPrefix (drop j s) sub)"
proof (induction s arbitrary: i)
  case Nil
  then show ?case by (auto simp: strings_HasPrefix_def split: if_splits)
next
  case (Cons c s)
  show ?case
  proof (cases "strings_HasPrefix (c # s) sub")
    case True
    with Cons.prems have "i = 0" by simp
    with True show ?thesis by simp
  next
    case False
    with Cons.prems obtain k where k: "find_first s sub = Some k" and i: "i = Suc k"
      by auto
    from Cons.IH[OF k] have ih: "k \<le> length s" "strings_HasPrefix (drop k s) sub"
      "\<forall>j < k. \<not> strings_HasPrefix (drop j s) sub" by auto
    have "\<forall>j < i. \<not> strings_HasPrefix (drop j (c # s)) sub"
    proof (intro allI impI)
      fix j assume "j < i"
      then show "\<not> strings_HasPrefix (drop j (c # s)) sub"
        using False ih(3) i by (cases j) auto
    qed
    with ih i show ?thesis by simp
  qed
qed

lemma find_last_None:
  "find_last s sub = None \<longleftrightarrow> (\<forall>i \<le> length s. \<not> strings_HasPrefix (drop i s) sub)"
proof (induction s)
  case Nil
  show ?case by (auto simp: strings_HasPrefix_def)
next
  case (Cons c s)
  show ?case
  proof
    assume a: "find_last (c # s) sub = None"
    then have np: "\<not> strings_HasPrefix (c # s) sub" and r: "find_last s sub = None"
      by (auto split: if_splits option.splits)
    show "\<forall>i \<le> length (c # s). \<not> strings_HasPrefix (drop i (c # s)) sub"
    proof (intro allI impI)
      fix i assume "i \<le> length (c # s)"
      then show "\<not> strings_HasPrefix (drop i (c # s)) sub"
        using np r Cons.IH by (cases i) auto
    qed
  next
    assume a: "\<forall>i \<le> length (c # s). \<not> strings_HasPrefix (drop i (c # s)) sub"
    then have "\<not> strings_HasPrefix (drop 0 (c # s)) sub" by blast
    then have np: "\<not> strings_HasPrefix (c # s) sub" by simp
    have "\<forall>i \<le> length s. \<not> strings_HasPrefix (drop i s) sub"
    proof (intro allI impI)
      fix i assume "i \<le> length s"
      then have "Suc i \<le> length (c # s)" by simp
      with a have "\<not> strings_HasPrefix (drop (Suc i) (c # s)) sub" by blast
      then show "\<not> strings_HasPrefix (drop i s) sub" by simp
    qed
    with Cons.IH have "find_last s sub = None" by simp
    with np show "find_last (c # s) sub = None" by simp
  qed
qed

lemma find_last_Some:
  "find_last s sub = Some i \<Longrightarrow>
   i \<le> length s \<and> strings_HasPrefix (drop i s) sub \<and>
   (\<forall>j. i < j \<and> j \<le> length s \<longrightarrow> \<not> strings_HasPrefix (drop j s) sub)"
proof (induction s arbitrary: i)
  case Nil
  then show ?case by (auto simp: strings_HasPrefix_def split: if_splits)
next
  case (Cons c s)
  show ?case
  proof (cases "find_last s sub")
    case None
    with Cons.prems have i: "i = 0" and p: "strings_HasPrefix (c # s) sub"
      by (auto split: if_splits)
    from None have no: "\<forall>k \<le> length s. \<not> strings_HasPrefix (drop k s) sub"
      by (simp add: find_last_None)
    have "\<forall>j. i < j \<and> j \<le> length (c # s) \<longrightarrow> \<not> strings_HasPrefix (drop j (c # s)) sub"
    proof (intro allI impI)
      fix j assume "i < j \<and> j \<le> length (c # s)"
      then show "\<not> strings_HasPrefix (drop j (c # s)) sub"
        using no by (cases j) auto
    qed
    with i p show ?thesis by simp
  next
    case (Some k)
    with Cons.prems have i: "i = Suc k" by simp
    from Cons.IH[OF Some] have ih: "k \<le> length s" "strings_HasPrefix (drop k s) sub"
      "\<forall>j. k < j \<and> j \<le> length s \<longrightarrow> \<not> strings_HasPrefix (drop j s) sub" by auto
    have "\<forall>j. i < j \<and> j \<le> length (c # s) \<longrightarrow> \<not> strings_HasPrefix (drop j (c # s)) sub"
    proof (intro allI impI)
      fix j assume "i < j \<and> j \<le> length (c # s)"
      then show "\<not> strings_HasPrefix (drop j (c # s)) sub"
        using ih(3) i by (cases j) auto
    qed
    with ih i show ?thesis by simp
  qed
qed

lemma Index_none: "occurrences s sub = [] \<Longrightarrow> strings_Index s sub = - 1"
proof -
  assume "occurrences s sub = []"
  then have "\<forall>i \<le> length s. \<not> strings_HasPrefix (drop i s) sub"
    using occurrences_iff[of _ s sub] by auto
  then have "find_first s sub = None" by (simp only: find_first_None)
  then show ?thesis by (simp add: strings_Index_def)
qed

lemma Index_single:
  assumes "occurrences s sub = [i]"
  shows "strings_Index s sub = int i \<and> strings_LastIndex s sub = int i"
proof -
  have mem: "\<And>j. j \<le> length s \<and> strings_HasPrefix (drop j s) sub \<longleftrightarrow> j = i"
    using occurrences_iff[of _ s sub] assms by auto
  have "find_first s sub \<noteq> None" using mem[of i] by (auto simp: find_first_None)
  then obtain a where a: "find_first s sub = Some a" by auto
  from find_first_Some[OF a] mem[of a] have "a = i" by simp
  have "find_last s sub \<noteq> None" using mem[of i] by (auto simp: find_last_None)
  then obtain b where b: "find_last s sub = Some b" by auto
  from find_last_Some[OF b] mem[of b] have "b = i" by simp
  with a b \<open>a = i\<close> show ?thesis by (simp add: strings_Index_def strings_LastIndex_def)
qed

lemma Index_multiple:
  assumes "1 < length (occurrences s sub)"
  shows "strings_Index s sub \<noteq> - 1 \<and> strings_Index s sub \<noteq> strings_LastIndex s sub"
proof -
  from assms obtain x y zs where xy: "occurrences s sub = x # y # zs"
    by (cases "occurrences s sub"; cases "tl (occurrences s sub)") auto
  have "distinct (occurrences s sub)" by (rule distinct_occurrences)
  with xy have ne: "x \<noteq> y" by auto
  have ox: "x \<le> length s \<and> strings_HasPrefix (drop x s) sub"
    using occurrences_iff[of x s sub] xy by simp
  have oy: "y \<le> length s \<and> strings_HasPrefix (drop y s) sub"
    using occurrences_iff[of y s sub] xy by simp
  have "find_first s sub \<noteq> None" using ox by (auto simp: find_first_None)
  then obtain a where a: "find_first s sub = Some a" by auto
  have "find_last s sub \<noteq> None" using ox by (auto simp: find_last_None)
  then obtain b where b: "find_last s sub = Some b" by auto
  from find_first_Some[OF a] ox oy have "a \<le> x" "a \<le> y" by (meson not_le)+
  moreover from find_last_Some[OF b] ox oy have "x \<le> b" "y \<le> b" by (meson not_le)+
  ultimately have "a \<noteq> b" using ne by linarith
  with a b show ?thesis by (simp add: strings_Index_def strings_LastIndex_def)
qed

section \<open>Properties of the file tools\<close>

lemma strings_Contains_infix: "strings_Contains (a @ s @ b) s"
proof -
  have "strings_HasPrefix (drop (length a) (a @ s @ b)) s"
    by (simp add: strings_HasPrefix_def)
  moreover have "length a \<le> length (a @ s @ b)" by simp
  ultimately have "\<not> (\<forall>i \<le> length (a @ s @ b). \<not> strings_HasPrefix (drop i (a @ s @ b)) s)"
    by blast
  then show ?thesis unfolding strings_Contains_def find_first_None by simp
qed

lemma files_recordFileWrite: "files (recordFileWrite path w) = files w"
  by (simp add: recordFileWrite_def time_Now_def Let_def)

lemma files_recordFileRead: "files (recordFileRead path w) = files w"
  by (simp add: recordFileRead_def time_Now_def Let_def)

lemma records_after_write_read:
  "\<exists>r. fileRecords (recordFileRead path (recordFileWrite path w)) path = Some r \<and>
       fr_writeTime r = clock w \<and> clock w \<le> fr_readTime r"
  by (simp add: recordFileRead_def recordFileWrite_def time_Now_def Let_def split: option.splits list.splits)

lemma os_WriteFile_clock: "os_WriteFile e path content w = Inr w' \<Longrightarrow> clock w' = clock w"
  by (auto simp: os_WriteFile_def split: option.splits node.splits)

lemma os_MkdirAll_clock: "os_MkdirAll e dir w = Inr w' \<Longrightarrow> clock w' = clock w"
  by (auto simp: os_MkdirAll_def split: option.splits node.splits)

lemma write_edit_Inr:
  "write_edit e filePath action description text oldContent newContent w = (Inr r, w') \<Longrightarrow>
   \<exists>w1. clock w1 = clock w \<and> w' = recordFileRead filePath (recordFileWrite filePath w1)"
  by (auto simp: write_edit_def split: if_splits sum.splits prod.splits dest: os_WriteFile_clock)

lemma replaceContent_Inr:
  "replaceContent e filePath oldString newString w = (Inr r, w') \<Longrightarrow>
   \<exists>w1. clock w1 = clock w \<and> w' = recordFileRead filePath (recordFileWrite filePath w1)"
  by (auto simp: replaceContent_def Let_def split: option.splits node.splits if_splits sum.splits
           dest: write_edit_Inr)

lemma deleteContent_Inr:
  "deleteContent e filePath oldString w = (Inr r, w') \<Longrightarrow>
   \<exists>w1. clock w1 = clock w \<and> w' = recordFileRead filePath (recordFileWrite filePath w1)"
  by (auto simp: deleteContent_def Let_def split: option.splits node.splits if_splits sum.splits
           dest: write_edit_Inr)

lemma createNewFile_Inr:
  "createNewFile e filePath content w = (Inr r, w') \<Longrightarrow>
   \<exists>w1. clock w1 = clock w \<and> w' = recordFileRead filePath (recordFileWrite filePath w1)"
  by (auto simp: createNewFile_def Let_def split: option.splits node.splits if_splits sum.splits prod.splits
           dest!: os_WriteFile_clock os_MkdirAll_clock)

lemma replaceContent_checked:
  assumes "files w filePath = Some (File content modTime)"
    and "getLastReadTime filePath w \<noteq> 0"
    and "modTime \<le> getLastReadTime filePath w"
    and "ReadFile_err e filePath = None"
  shows "replaceContent e filePath oldString newString w =
     (if strings_Index content oldString = - 1 then (Inl not_found_message, w)
      else if strings_Index content oldString \<noteq> strings_LastIndex content oldString
      then (Inl multiple_message, w)
      else write_edit e filePath ''replace'' ''Replace content in file ''
             ''Content replaced in file: '' content
             (take (nat (strings_Index content oldString)) content @ newString @
              drop (nat (strings_Index content oldString) + length oldString) content) w)"
  using assms by (simp add: replaceContent_def os_ReadFile_def Let_def)

lemma write_edit_granted:
  assumes "sessionID e \<noteq> []" and "messageID e \<noteq> []"
    and "GenerateGitDiffWithStats e (removeWorkingDirectoryPrefix e filePath) oldContent newContent
           = Inr (diff, additions, removals)"
    and "permissions_Request e (edit_permission e filePath action description diff)"
    and "WriteFile_err e filePath = None"
    and "files w filePath = Some (File content modTime)"
  shows "write_edit e filePath action description text oldContent newContent w =
     (Inr \<lparr>er_text = text @ filePath, er_additions = additions, er_removals = removals\<rparr>,
      recordFileRead filePath
        (recordFileWrite filePath (w\<lparr>files := (files w)(filePath \<mapsto> File newContent (clock w))\<rparr>)))"
  using assms by (simp add: write_edit_def os_WriteFile_def)

lemma ex_abs: "absolute_path (ex_env b) ''/wd/a.txt'' = ''/wd/a.txt''"
  by (simp add: absolute_path_def filepath_IsAbs_def strings_HasPrefix_def)

subsection \<open>Single-occurrence edit\<close>

text \<open>
  Claim C1 as stated fails: an edit with non-empty strings on an existing file that was
  read at time 7 and last modified at time 5, whose old string occurs exactly once, does
  not succeed when the permission request is denied. The run returns the error
  response \<open>error replacing content: permission denied\<close> and changes nothing.
\<close>

theorem edit_single_occurrence_denied_counterexample:
  "files (ex_world 7) ''/wd/a.txt'' = Some (File ''hello'' 5) \<and>
   getLastReadTime ''/wd/a.txt'' (ex_world 7) = 7 \<and>
   occurrences ''hello'' ''ell'' = [1] \<and>
   edit_Run (ex_env False)
     (Inr \<lparr>ep_FilePath = ''/wd/a.txt'', ep_OldString = ''ell'', ep_NewString = ''ipp''\<rparr>) (ex_world 7)
   = (NewTextErrorResponse ''error replacing content: permission denied'', ex_world 7)"
proof -
  let ?e = "ex_env False" and ?w = "ex_world 7"
  have o: "occurrences ''hello'' ''ell'' = [1]" by code_simp
  have f: "files ?w ''/wd/a.txt'' = Some (File ''hello'' 5)" by (simp add: ex_world_def)
  have r: "getLastReadTime ''/wd/a.txt'' ?w = 7" by (simp add: ex_world_def getLastReadTime_def)
  have rd: "ReadFile_err ?e ''/wd/a.txt'' = None" by (simp add: ex_env_def)
  have ix: "strings_Index ''hello'' ''ell'' = 1" "strings_LastIndex ''hello'' ''ell'' = 1"
    by code_simp+
  have "replaceContent ?e ''/wd/a.txt'' ''ell'' ''ipp'' ?w = (Inl ''permission denied'', ?w)"
    using replaceContent_checked[OF f _ _ rd, of "''ell''" "''ipp''"] r ix
    by (simp add: write_edit_def ex_env_def)
  then have "edit_Run ?e
     (Inr \<lparr>ep_FilePath = ''/wd/a.txt'', ep_OldString = ''ell'', ep_NewString = ''ipp''\<rparr>) ?w
     = (NewTextErrorResponse ''error replacing content: permission denied'', ?w)"
    by (simp add: edit_Run_def ex_abs)
  with o f r show ?thesis by simp
qed

text \<open>
  Claim C1, amended. For an edit call with a non-empty path, old string and new
  string on an existing file that was read, is not stale and can be read:
  when the old string occurs exactly once, at offset \<open>i\<close>, and the session and message ids
  are present, the diff is generated, the permission request is granted and the write
  succeeds, the run returns a response that is no error and the file holds the old
  content with the occurrence at \<open>i\<close> replaced by the new string;
  when the old string does not occur, or occurs more than once (overlapping occurrences
  count), the run returns an error response and the state is unchanged.
\<close>

theorem edit_replaces_single_occurrence:
  assumes "ep_FilePath params \<noteq> []" and "ep_OldString params \<noteq> []" and "ep_NewString params \<noteq> []"
    and "filePath = absolute_path e (ep_FilePath params)"
    and "files w filePath = Some (File content modTime)"
    and "getLastReadTime filePath w \<noteq> 0"
    and "modTime \<le> getLastReadTime filePath w"
    and "ReadFile_err e filePath = None"
  shows "(\<forall>i diff additions removals.
            occurrences content (ep_OldString params) = [i] \<and>
            sessionID e \<noteq> [] \<and> messageID e \<noteq> [] \<and>
            GenerateGitDiffWithStats e (removeWorkingDirectoryPrefix e filePath) content
              (take i content @ ep_NewString params @ drop (i + length (ep_OldString params)) content)
              = Inr (diff, additions, removals) \<and>
            permissions_Request e
              (edit_permission e filePath ''replace'' ''Replace content in file '' diff) \<and>
            WriteFile_err e filePath = None \<longrightarrow>
            \<not> rs_IsError (fst (edit_Run e (Inr params) w)) \<and>
            files (snd (edit_Run e (Inr params) w)) =
              (files w)(filePath \<mapsto>
                 File (take i content @ ep_NewString params @
                       drop (i + length (ep_OldString params)) content) (clock w)))
       \<and> (occurrences content (ep_OldString params) = [] \<longrightarrow>
            edit_Run e (Inr params) w =
              (NewTextErrorResponse (''error replacing content: '' @ not_found_message), w))
       \<and> (1 < length (occurrences content (ep_OldString params)) \<longrightarrow>
            edit_Run e (Inr params) w =
              (NewTextErrorResponse (''error replacing content: '' @ multiple_message), w))"
proof -
  let ?old = "ep_OldString params" and ?new = "ep_NewString params"
  have run: "edit_Run e (Inr params) w =
      (case replaceContent e filePath ?old ?new w of
         (Inl err, w') \<Rightarrow> (NewTextErrorResponse (''error replacing content: '' @ err), w')
       | (Inr result, w') \<Rightarrow>
           (WithResponseMetadata
              (NewTextResponse (''<result>'' @ [CHR 0x0A] @ er_text result @ [CHR 0x0A] @
                                ''</result>'' @ [CHR 0x0A] @ getDiagnostics e filePath))
              (EditResponseMetadata (er_additions result) (er_removals result)), w'))"
    unfolding assms(4) using assms(1-3) by (simp add: edit_Run_def Let_def)
  note rc = replaceContent_checked[OF assms(5-8), of ?old ?new]
  have zero: "occurrences content ?old = [] \<longrightarrow>
      edit_Run e (Inr params) w =
        (NewTextErrorResponse (''error replacing content: '' @ not_found_message), w)"
    using Index_none[of content ?old] by (auto simp: run rc)
  have multi: "1 < length (occurrences content ?old) \<longrightarrow>
      edit_Run e (Inr params) w =
        (NewTextErrorResponse (''error replacing content: '' @ multiple_message), w)"
    using Index_multiple[of content ?old] by (auto simp: run rc)
  have one: "\<not> rs_IsError (fst (edit_Run e (Inr params) w)) \<and>
      files (snd (edit_Run e (Inr params) w)) =
        (files w)(filePath \<mapsto> File (take i content @ ?new @ drop (i + length ?old) content) (clock w))"
    if occ: "occurrences content ?old = [i]"
      and s: "sessionID e \<noteq> []" "messageID e \<noteq> []"
      and d: "GenerateGitDiffWithStats e (removeWorkingDirectoryPrefix e filePath) content
                (take i content @ ?new @ drop (i + length ?old) content) = Inr (diff, additions, removals)"
      and p: "permissions_Request e (edit_permission e filePath ''replace'' ''Replace content in file '' diff)"
      and wr: "WriteFile_err e filePath = None"
    for i diff additions removals
  proof -
    from Index_single[OF occ]
    have ix: "strings_Index content ?old = int i" "strings_LastIndex content ?old = int i" by auto
    have "replaceContent e filePath ?old ?new w =
        write_edit e filePath ''replace'' ''Replace content in file '' ''Content replaced in file: ''
          content (take i content @ ?new @ drop (i + length ?old) content) w"
      by (simp add: rc ix)
    also note write_edit_granted[OF s d p wr assms(5)]
    finally show ?thesis
      by (simp add: run WithResponseMetadata_def NewTextResponse_def
                    files_recordFileRead files_recordFileWrite)
  qed
  from one zero multi show ?thesis by blast
qed

text \<open>
  The theorem on \<open>/wd/a.txt\<close> (\<open>hello\<close>): \<open>ell\<close> occurs once and is replaced, \<open>z\<close> does not
  occur, \<open>l\<close> occurs twice.
\<close>

theorem edit_replaces_single_occurrence_witness:
  "\<not> rs_IsError (fst (edit_Run (ex_env True)
        (Inr \<lparr>ep_FilePath = ''/wd/a.txt'', ep_OldString = ''ell'', ep_NewString = ''ipp''\<rparr>) (ex_world 7))) \<and>
   files (snd (edit_Run (ex_env True)
        (Inr \<lparr>ep_FilePath = ''/wd/a.txt'', ep_OldString = ''ell'', ep_NewString = ''ipp''\<rparr>) (ex_world 7)))
     ''/wd/a.txt'' = Some (File ''hippo'' 9) \<and>
   edit_Run (ex_env True)
        (Inr \<lparr>ep_FilePath = ''/wd/a.txt'', ep_OldString = ''z'', ep_NewString = ''ipp''\<rparr>) (ex_world 7)
     = (NewTextErrorResponse (''error replacing content: '' @ not_found_message), ex_world 7) \<and>
   edit_Run (ex_env True)
        (Inr \<lparr>ep_FilePath = ''/wd/a.txt'', ep_OldString = ''l'', ep_NewString = ''ipp''\<rparr>) (ex_world 7)
     = (NewTextErrorResponse (''error replacing content: '' @ multiple_message), ex_world 7)"
proof -
  let ?e = "ex_env True" and ?w = "ex_world 7"
  have f: "files ?w ''/wd/a.txt'' = Some (File ''hello'' 5)" by (simp add: ex_world_def)
  have r: "getLastReadTime ''/wd/a.txt'' ?w \<noteq> 0" by (simp add: ex_world_def getLastReadTime_def)
  have m: "5 \<le> getLastReadTime ''/wd/a.txt'' ?w" by (simp add: ex_world_def getLastReadTime_def)
  have rd: "ReadFile_err ?e ''/wd/a.txt'' = None" by (simp add: ex_env_def)
  have o1: "occurrences ''hello'' ''ell'' = [1]" by code_simp
  have o0: "occurrences ''hello'' ''z'' = []" by code_simp
  have o2: "occurrences ''hello'' ''l'' = [2, 3]" by code_simp
  have env: "sessionID ?e \<noteq> [] \<and> messageID ?e \<noteq> [] \<and> WriteFile_err ?e ''/wd/a.txt'' = None \<and>
      (\<forall>name old new. GenerateGitDiffWithStats ?e name old new = Inr (''diff'', 1, 1)) \<and>
      (\<forall>req. permissions_Request ?e req) \<and> clock ?w = 9"
    by (simp add: ex_env_def ex_world_def)
  from edit_replaces_single_occurrence[of
      "\<lparr>ep_FilePath = ''/wd/a.txt'', ep_OldString = ''ell'', ep_NewString = ''ipp''\<rparr>"
      "''/wd/a.txt''" ?e ?w "''hello''" 5] f r m rd o1 env
  have a: "\<not> rs_IsError (fst (edit_Run ?e
        (Inr \<lparr>ep_FilePath = ''/wd/a.txt'', ep_OldString = ''ell'', ep_NewString = ''ipp''\<rparr>) ?w)) \<and>
     files (snd (edit_Run ?e
        (Inr \<lparr>ep_FilePath = ''/wd/a.txt'', ep_OldString = ''ell'', ep_NewString = ''ipp''\<rparr>) ?w))
       ''/wd/a.txt'' = Some (File ''hippo'' 9)"
    by (simp add: ex_abs)
  from edit_replaces_single_occurrence[of
      "\<lparr>ep_FilePath = ''/wd/a.txt'', ep_OldString = ''z'', ep_NewString = ''ipp''\<rparr>"
      "''/wd/a.txt''" ?e ?w "''hello''" 5] f r m rd o0
  have b: "edit_Run ?e
        (Inr \<lparr>ep_FilePath = ''/wd/a.txt'', ep_OldString = ''z'', ep_NewString = ''ipp''\<rparr>) ?w
     = (NewTextErrorResponse (''error replacing content: '' @ not_found_message), ?w)"
    by (simp add: ex_abs)
  from edit_replaces_single_occurrence[of
      "\<lparr>ep_FilePath = ''/wd/a.txt'', ep_OldString = ''l'', ep_NewString = ''ipp''\<rparr>"
      "''/wd/a.txt''" ?e ?w "''hello''" 5] f r m rd o2
  have c: "edit_Run ?e
        (Inr \<lparr>ep_FilePath = ''/wd/a.txt'', ep_OldString = ''l'', ep_NewString = ''ipp''\<rparr>) ?w
     = (NewTextErrorResponse (''error replacing content: '' @ multiple_message), ?w)"
    by (simp add: ex_abs)
  from a b c show ?thesis by blast
qed

lemma ex_Format:
  "Format_RFC3339 (ex_env b) 5 = ''2025-04-01T10:00:05Z''"
  "Format_RFC3339 (ex_env b) 3 = ''2025-04-01T10:00:03Z''"
  "Format_RFC3339 (ex_env b) 0 = ''0001-01-01T00:00:00Z''"
  by (simp_all add: ex_env_def)

lemma ex_world_file: "files (ex_world t) ''/wd/a.txt'' = Some (File ''hello'' 5)"
  by (simp add: ex_world_def)

lemma ex_world_lastRead: "getLastReadTime ''/wd/a.txt'' (ex_world t) = t"
  by (simp add: ex_world_def getLastReadTime_def)

lemma ex_env_fields:
  "sessionID (ex_env b) = ''s1''" "messageID (ex_env b) = ''m1''"
  "permissions_Request (ex_env b) req = b"
  "GenerateGitDiffWithStats (ex_env b) name old new = Inr (''diff'', 1, 1)"
  "ReadFile_err (ex_env b) p = None" "WriteFile_err (ex_env b) p = None"
  "MkdirAll_err (ex_env b) p = None" "filepath_Dir (ex_env b) p = ''/wd''"
  by (simp_all add: ex_env_def)

lemma edit_stale_message_contains:
  "strings_Contains (edit_stale_message e p m l) (Format_RFC3339 e m) \<and>
   strings_Contains (edit_stale_message e p m l) (Format_RFC3339 e l) \<and>
   strings_Contains (edit_stale_message e p m l) ''has been modified since it was last read''"
proof -
  have 1: "edit_stale_message e p m l =
      (''file '' @ p @ '' has been modified since it was last read (mod time: '') @
      Format_RFC3339 e m @ ('', last read: '' @ Format_RFC3339 e l @ '')'')"
    by (simp add: edit_stale_message_def)
  have 2: "edit_stale_message e p m l =
      (''file '' @ p @ '' has been modified since it was last read (mod time: '' @
       Format_RFC3339 e m @ '', last read: '') @ Format_RFC3339 e l @ '')''"
    by (simp add: edit_stale_message_def)
  have 3: "edit_stale_message e p m l =
      (''file '' @ p @ '' '') @ ''has been modified since it was last read'' @
      ('' (mod time: '' @ Format_RFC3339 e m @ '', last read: '' @ Format_RFC3339 e l @ '')'')"
    by (simp add: edit_stale_message_def)
  show ?thesis
    using strings_Contains_infix[of "''file '' @ p @ '' has been modified since it was last read (mod time: ''"
            "Format_RFC3339 e m" "'', last read: '' @ Format_RFC3339 e l @ '')''"]
          strings_Contains_infix[of "''file '' @ p @ '' has been modified since it was last read (mod time: '' @
             Format_RFC3339 e m @ '', last read: ''" "Format_RFC3339 e l" "'')''"]
          strings_Contains_infix[of "''file '' @ p @ '' ''" "''has been modified since it was last read''"
            "'' (mod time: '' @ Format_RFC3339 e m @ '', last read: '' @ Format_RFC3339 e l @ '')''"]
    by (simp only: 1[symmetric] 2[symmetric] 3[symmetric])
qed

lemma write_stale_message_contains:
  "strings_Contains (write_stale_message e p m l) (Format_RFC3339 e m) \<and>
   strings_Contains (write_stale_message e p m l) (Format_RFC3339 e l) \<and>
   strings_Contains (write_stale_message e p m l) ''has been modified since it was last read''"
proof -
  have 1: "write_stale_message e p m l =
      (''File '' @ p @ '' has been modified since it was last read.'' @ [CHR 0x0A] @
       ''Last modification: '') @ Format_RFC3339 e m @
      ([CHR 0x0A] @ ''Last read: '' @ Format_RFC3339 e l @ [CHR 0x0A, CHR 0x0A] @
       ''Please read the file again before modifying it.'')"
    by (simp add: write_stale_message_def)
  have 2: "write_stale_message e p m l =
      (''File '' @ p @ '' has been modified since it was last read.'' @ [CHR 0x0A] @
       ''Last modification: '' @ Format_RFC3339 e m @ [CHR 0x0A] @ ''Last read: '') @
      Format_RFC3339 e l @
      ([CHR 0x0A, CHR 0x0A] @ ''Please read the file again before modifying it.'')"
    by (simp add: write_stale_message_def)
  have 3: "write_stale_message e p m l =
      (''File '' @ p @ '' '') @ ''has been modified since it was last read'' @
      (''.'' @ [CHR 0x0A] @ ''Last modification: '' @ Format_RFC3339 e m @ [CHR 0x0A] @
       ''Last read: '' @ Format_RFC3339 e l @ [CHR 0x0A, CHR 0x0A] @
       ''Please read the file again before modifying it.'')"
    by (simp add: write_stale_message_def)
  show ?thesis
    using strings_Contains_infix[of "''File '' @ p @ '' has been modified since it was last read.'' @ [CHR 0x0A] @
            ''Last modification: ''" "Format_RFC3339 e m"
            "[CHR 0x0A] @ ''Last read: '' @ Format_RFC3339 e l @ [CHR 0x0A, CHR 0x0A] @
             ''Please read the file again before modifying it.''"]
          strings_Contains_infix[of "''File '' @ p @ '' has been modified since it was last read.'' @ [CHR 0x0A] @
            ''Last modification: '' @ Format_RFC3339 e m @ [CHR 0x0A] @ ''Last read: ''"
            "Format_RFC3339 e l"
            "[CHR 0x0A, CHR 0x0A] @ ''Please read the file again before modifying it.''"]
          strings_Contains_infix[of "''File '' @ p @ '' ''" "''has been modified since it was last read''"
            "''.'' @ [CHR 0x0A] @ ''Last modification: '' @ Format_RFC3339 e m @ [CHR 0x0A] @
             ''Last read: '' @ Format_RFC3339 e l @ [CHR 0x0A, CHR 0x0A] @
             ''Please read the file again before modifying it.''"]
    by (simp only: 1[symmetric] 2[symmetric] 3[symmetric])
qed

lemma same_content_message_contains:
  "strings_Contains (same_content_message p) ''already contains the exact content''"
proof -
  have "same_content_message p =
      (''File '' @ p @ '' '') @ ''already contains the exact content'' @ ''. No changes made.''"
    by (simp add: same_content_message_def)
  then show ?thesis
    using strings_Contains_infix[of "''File '' @ p @ '' ''" "''already contains the exact content''"
            "''. No changes made.''"] by (simp only:)
qed

lemma write_Run_checked:
  assumes "wp_FilePath params \<noteq> []" and "wp_Content params \<noteq> []"
    and "write_checks e (absolute_path e (wp_FilePath params)) (wp_Content params) w = Some r"
  shows "write_Run e (Inr params) w = (r, w)"
  using assms by (simp add: write_Run_def Let_def)

subsection \<open>Staleness check\<close>

text \<open>
  Claim C2. A replace, a delete or a write (with its required parameters) on an existing
  file for which a read is recorded and whose modification time is later than that
  last-read time fails; the message holds both times in RFC3339 and the phrase
  \<open>has been modified since it was last read\<close>, and the state (the files and the file
  records; these tools keep no snapshots) is unchanged.
\<close>

theorem stale_file_is_refused:
  assumes "files w filePath = Some (File content modTime)"
    and "getLastReadTime filePath w \<noteq> 0"
    and "getLastReadTime filePath w < modTime"
  shows "(\<exists>msg. replaceContent e filePath oldString newString w = (Inl msg, w) \<and>
            strings_Contains msg (Format_RFC3339 e modTime) \<and>
            strings_Contains msg (Format_RFC3339 e (getLastReadTime filePath w)) \<and>
            strings_Contains msg ''has been modified since it was last read'')
       \<and> (\<exists>msg. deleteContent e filePath oldString w = (Inl msg, w) \<and>
            strings_Contains msg (Format_RFC3339 e modTime) \<and>
            strings_Contains msg (Format_RFC3339 e (getLastReadTime filePath w)) \<and>
            strings_Contains msg ''has been modified since it was last read'')
       \<and> (\<forall>params. wp_FilePath params \<noteq> [] \<and> wp_Content params \<noteq> [] \<and>
              absolute_path e (wp_FilePath params) = filePath \<longrightarrow>
            (\<exists>msg. write_Run e (Inr params) w = (Inr (NewTextErrorResponse msg), w) \<and>
               strings_Contains msg (Format_RFC3339 e modTime) \<and>
               strings_Contains msg (Format_RFC3339 e (getLastReadTime filePath w)) \<and>
               strings_Contains msg ''has been modified since it was last read''))"
proof -
  let ?l = "getLastReadTime filePath w"
  have r: "replaceContent e filePath oldString newString w =
      (Inl (edit_stale_message e filePath modTime ?l), w)"
    using assms by (simp add: replaceContent_def Let_def)
  have d: "deleteContent e filePath oldString w =
      (Inl (edit_stale_message e filePath modTime ?l), w)"
    using assms by (simp add: deleteContent_def Let_def)
  have c: "write_checks e filePath c' w =
      Some (Inr (NewTextErrorResponse (write_stale_message e filePath modTime ?l)))" for c'
    using assms by (simp add: write_checks_def Let_def)
  have wr: "write_Run e (Inr params) w =
      (Inr (NewTextErrorResponse (write_stale_message e filePath modTime ?l)), w)"
    if "wp_FilePath params \<noteq> []" "wp_Content params \<noteq> []"
       "absolute_path e (wp_FilePath params) = filePath" for params
    using write_Run_checked[OF that(1,2), of e w] c that(3) by simp
  from r d wr edit_stale_message_contains[of e filePath modTime ?l]
       write_stale_message_contains[of e filePath modTime ?l]
  show ?thesis by blast
qed

text \<open>
  The theorem on \<open>/wd/a.txt\<close>, read at time 3 and modified at time 5: the three
  operations fail and name both times.
\<close>

theorem stale_file_is_refused_witness:
  "(\<exists>msg. replaceContent (ex_env True) ''/wd/a.txt'' ''ell'' ''ipp'' (ex_world 3) = (Inl msg, ex_world 3) \<and>
       strings_Contains msg ''2025-04-01T10:00:05Z'' \<and> strings_Contains msg ''2025-04-01T10:00:03Z'') \<and>
   (\<exists>msg. deleteContent (ex_env True) ''/wd/a.txt'' ''ell'' (ex_world 3) = (Inl msg, ex_world 3) \<and>
       strings_Contains msg ''2025-04-01T10:00:05Z'' \<and> strings_Contains msg ''2025-04-01T10:00:03Z'') \<and>
   (\<exists>msg. write_Run (ex_env True) (Inr \<lparr>wp_FilePath = ''/wd/a.txt'', wp_Content = ''bye''\<rparr>) (ex_world 3)
          = (Inr (NewTextErrorResponse msg), ex_world 3) \<and>
       strings_Contains msg ''2025-04-01T10:00:05Z'' \<and> strings_Contains msg ''2025-04-01T10:00:03Z'')"
proof -
  have f: "files (ex_world 3) ''/wd/a.txt'' = Some (File ''hello'' 5)" by (rule ex_world_file)
  have r: "getLastReadTime ''/wd/a.txt'' (ex_world 3) \<noteq> 0" by (simp add: ex_world_lastRead)
  have s: "getLastReadTime ''/wd/a.txt'' (ex_world 3) < 5" by (simp add: ex_world_lastRead)
  note T = stale_file_is_refused[OF f r s, of "ex_env True" "''ell''" "''ipp''",
             unfolded ex_world_lastRead ex_Format]
  have p: "wp_FilePath \<lparr>wp_FilePath = ''/wd/a.txt'', wp_Content = ''bye''\<rparr> \<noteq> [] \<and>
      wp_Content \<lparr>wp_FilePath = ''/wd/a.txt'', wp_Content = ''bye''\<rparr> \<noteq> [] \<and>
      absolute_path (ex_env True) (wp_FilePath \<lparr>wp_FilePath = ''/wd/a.txt'', wp_Content = ''bye''\<rparr>)
        = ''/wd/a.txt''"
    by (simp add: ex_abs)
  from T have a: "\<exists>msg. replaceContent (ex_env True) ''/wd/a.txt'' ''ell'' ''ipp'' (ex_world 3) = (Inl msg, ex_world 3) \<and>
       strings_Contains msg ''2025-04-01T10:00:05Z'' \<and> strings_Contains msg ''2025-04-01T10:00:03Z''"
    by blast
  from T have b: "\<exists>msg. deleteContent (ex_env True) ''/wd/a.txt'' ''ell'' (ex_world 3) = (Inl msg, ex_world 3) \<and>
       strings_Contains msg ''2025-04-01T10:00:05Z'' \<and> strings_Contains msg ''2025-04-01T10:00:03Z''"
    by blast
  from T p have c: "\<exists>msg. write_Run (ex_env True) (Inr \<lparr>wp_FilePath = ''/wd/a.txt'', wp_Content = ''bye''\<rparr>) (ex_world 3)
          = (Inr (NewTextErrorResponse msg), ex_world 3) \<and>
       strings_Contains msg ''2025-04-01T10:00:05Z'' \<and> strings_Contains msg ''2025-04-01T10:00:03Z''"
    by blast
  from a b c show ?thesis by blast
qed

subsection \<open>Read before write\<close>

text \<open>
  Claim C3 as stated fails. On an existing file that was never read, a replace fails
  with \<open>you must read the file before editing it. Use the View tool first\<close>, which does
  not contain \<open>must read before editing\<close>; and the write tool has no check of its own
  for an unread file: an overwrite fails the staleness check against the zero time, with
  the staleness message.
\<close>

theorem unread_file_message_counterexample:
  "files (ex_world 0) ''/wd/a.txt'' = Some (File ''hello'' 5) \<and>
   fileRecords (ex_world 0) ''/wd/a.txt'' = None \<and>
   replaceContent (ex_env True) ''/wd/a.txt'' ''ell'' ''ipp'' (ex_world 0) =
     (Inl ''you must read the file before editing it. Use the View tool first'', ex_world 0) \<and>
   \<not> strings_Contains ''you must read the file before editing it. Use the View tool first''
        ''must read before editing'' \<and>
   write_Run (ex_env True) (Inr \<lparr>wp_FilePath = ''/wd/a.txt'', wp_Content = ''bye''\<rparr>) (ex_world 0) =
     (Inr (NewTextErrorResponse (write_stale_message (ex_env True) ''/wd/a.txt'' 5 0)), ex_world 0) \<and>
   \<not> strings_Contains (write_stale_message (ex_env True) ''/wd/a.txt'' 5 0) ''must read before editing''"
proof -
  have f: "files (ex_world 0) ''/wd/a.txt'' = Some (File ''hello'' 5)" by (rule ex_world_file)
  have n: "fileRecords (ex_world 0) ''/wd/a.txt'' = None" by (simp add: ex_world_def)
  have l: "getLastReadTime ''/wd/a.txt'' (ex_world 0) = 0" by (rule ex_world_lastRead)
  have r: "replaceContent (ex_env True) ''/wd/a.txt'' ''ell'' ''ipp'' (ex_world 0) =
     (Inl ''you must read the file before editing it. Use the View tool first'', ex_world 0)"
    using f l by (simp add: replaceContent_def must_read_message_def)
  have c1: "\<not> strings_Contains ''you must read the file before editing it. Use the View tool first''
        ''must read before editing''" by code_simp
  have "write_checks (ex_env True) ''/wd/a.txt'' ''bye'' (ex_world 0) =
      Some (Inr (NewTextErrorResponse (write_stale_message (ex_env True) ''/wd/a.txt'' 5 0)))"
    using f l by (simp add: write_checks_def Let_def)
  then have w: "write_Run (ex_env True) (Inr \<lparr>wp_FilePath = ''/wd/a.txt'', wp_Content = ''bye''\<rparr>) (ex_world 0) =
     (Inr (NewTextErrorResponse (write_stale_message (ex_env True) ''/wd/a.txt'' 5 0)), ex_world 0)"
    using write_Run_checked[where params = "\<lparr>wp_FilePath = ''/wd/a.txt'', wp_Content = ''bye''\<rparr>"
            and e = "ex_env True" and w = "ex_world 0"]
    by (simp add: ex_abs)
  have m: "write_stale_message (ex_env True) ''/wd/a.txt'' 5 0 =
      ''File /wd/a.txt has been modified since it was last read.'' @ [CHR 0x0A] @
      ''Last modification: 2025-04-01T10:00:05Z'' @ [CHR 0x0A] @
      ''Last read: 0001-01-01T00:00:00Z'' @ [CHR 0x0A, CHR 0x0A] @
      ''Please read the file again before modifying it.''"
    by (simp add: write_stale_message_def ex_Format)
  have c2: "\<not> strings_Contains (write_stale_message (ex_env True) ''/wd/a.txt'' 5 0) ''must read before editing''"
    unfolding m by code_simp
  from f n r c1 w c2 show ?thesis by blast
qed

text \<open>
  Claim C3, amended. On an existing file for which no read is recorded, a replace and a
  delete fail with \<open>you must read the file before editing it. Use the View tool first\<close>,
  and an overwrite by the write tool (with its required parameters) of a file modified
  after the zero time fails with the staleness message, the last-read time being the
  zero time; in each case the state is unchanged.
\<close>

theorem unread_file_is_refused:
  assumes "files w filePath = Some (File content modTime)"
    and "getLastReadTime filePath w = 0"
  shows "replaceContent e filePath oldString newString w = (Inl must_read_message, w)
       \<and> deleteContent e filePath oldString w = (Inl must_read_message, w)
       \<and> (\<forall>params. wp_FilePath params \<noteq> [] \<and> wp_Content params \<noteq> [] \<and>
              absolute_path e (wp_FilePath params) = filePath \<and> 0 < modTime \<longrightarrow>
            write_Run e (Inr params) w =
              (Inr (NewTextErrorResponse (write_stale_message e filePath modTime 0)), w))"
proof -
  have r: "replaceContent e filePath oldString newString w = (Inl must_read_message, w)"
    using assms by (simp add: replaceContent_def)
  have d: "deleteContent e filePath oldString w = (Inl must_read_message, w)"
    using assms by (simp add: deleteContent_def)
  have wr: "write_Run e (Inr params) w =
      (Inr (NewTextErrorResponse (write_stale_message e filePath modTime 0)), w)"
    if "wp_FilePath params \<noteq> []" "wp_Content params \<noteq> []"
       "absolute_path e (wp_FilePath params) = filePath" "0 < modTime" for params
  proof -
    have "write_checks e filePath (wp_Content params) w =
        Some (Inr (NewTextErrorResponse (write_stale_message e filePath modTime 0)))"
      using assms that(4) by (simp add: write_checks_def Let_def)
    with write_Run_checked[OF that(1,2), of e w] that(3) show ?thesis by simp
  qed
  from r d wr show ?thesis by blast
qed

text \<open>The theorem on \<open>/wd/a.txt\<close>, never read.\<close>

theorem unread_file_is_refused_witness:
  "replaceContent (ex_env True) ''/wd/a.txt'' ''ell'' ''ipp'' (ex_world 0) = (Inl must_read_message, ex_world 0) \<and>
   deleteContent (ex_env True) ''/wd/a.txt'' ''ell'' (ex_world 0) = (Inl must_read_message, ex_world 0) \<and>
   write_Run (ex_env True) (Inr \<lparr>wp_FilePath = ''/wd/a.txt'', wp_Content = ''bye''\<rparr>) (ex_world 0) =
     (Inr (NewTextErrorResponse (write_stale_message (ex_env True) ''/wd/a.txt'' 5 0)), ex_world 0)"
proof -
  have f: "files (ex_world 0) ''/wd/a.txt'' = Some (File ''hello'' 5)" by (rule ex_world_file)
  have r: "getLastReadTime ''/wd/a.txt'' (ex_world 0) = 0" by (rule ex_world_lastRead)
  have p: "wp_FilePath \<lparr>wp_FilePath = ''/wd/a.txt'', wp_Content = ''bye''\<rparr> \<noteq> [] \<and>
      wp_Content \<lparr>wp_FilePath = ''/wd/a.txt'', wp_Content = ''bye''\<rparr> \<noteq> [] \<and>
      absolute_path (ex_env True) (wp_FilePath \<lparr>wp_FilePath = ''/wd/a.txt'', wp_Content = ''bye''\<rparr>)
        = ''/wd/a.txt'' \<and> (0::int) < 5"
    by (simp add: ex_abs)
  from unread_file_is_refused[OF f r, of "ex_env True" "''ell''" "''ipp''"] p
  show ?thesis by blast
qed

subsection \<open>No-op suppression\<close>

text \<open>
  Claim C7 as stated fails. A write of \<open>hello\<close> to \<open>/wd/a.txt\<close>, which holds \<open>hello\<close>, was
  read at time 3 and modified at time 5, is refused by the staleness check, which comes
  first; its message does not contain \<open>already contains the exact content\<close>.
\<close>

theorem identical_content_stale_counterexample:
  "files (ex_world 3) ''/wd/a.txt'' = Some (File ''hello'' 5) \<and>
   write_Run (ex_env True) (Inr \<lparr>wp_FilePath = ''/wd/a.txt'', wp_Content = ''hello''\<rparr>) (ex_world 3) =
     (Inr (NewTextErrorResponse (write_stale_message (ex_env True) ''/wd/a.txt'' 5 3)), ex_world 3) \<and>
   \<not> strings_Contains (write_stale_message (ex_env True) ''/wd/a.txt'' 5 3)
        ''already contains the exact content''"
proof -
  have f: "files (ex_world 3) ''/wd/a.txt'' = Some (File ''hello'' 5)" by (rule ex_world_file)
  have l: "getLastReadTime ''/wd/a.txt'' (ex_world 3) = 3" by (rule ex_world_lastRead)
  have "write_checks (ex_env True) ''/wd/a.txt'' ''hello'' (ex_world 3) =
      Some (Inr (NewTextErrorResponse (write_stale_message (ex_env True) ''/wd/a.txt'' 5 3)))"
    using f l by (simp add: write_checks_def Let_def)
  then have w: "write_Run (ex_env True) (Inr \<lparr>wp_FilePath = ''/wd/a.txt'', wp_Content = ''hello''\<rparr>) (ex_world 3) =
     (Inr (NewTextErrorResponse (write_stale_message (ex_env True) ''/wd/a.txt'' 5 3)), ex_world 3)"
    using write_Run_checked[where params = "\<lparr>wp_FilePath = ''/wd/a.txt'', wp_Content = ''hello''\<rparr>"
            and e = "ex_env True" and w = "ex_world 3"]
    by (simp add: ex_abs)
  have m: "write_stale_message (ex_env True) ''/wd/a.txt'' 5 3 =
      ''File /wd/a.txt has been modified since it was last read.'' @ [CHR 0x0A] @
      ''Last modification: 2025-04-01T10:00:05Z'' @ [CHR 0x0A] @
      ''Last read: 2025-04-01T10:00:03Z'' @ [CHR 0x0A, CHR 0x0A] @
      ''Please read the file again before modifying it.''"
    by (simp add: write_stale_message_def ex_Format)
  have c: "\<not> strings_Contains (write_stale_message (ex_env True) ''/wd/a.txt'' 5 3)
        ''already contains the exact content''"
    unfolding m by code_simp
  from f w c show ?thesis by blast
qed

text \<open>
  Claim C7, amended. A write call with a non-empty path and non-empty content that is
  identical to the content of the existing, readable target file is refused with an
  error response and the state is unchanged. When the file is not stale the message is
  \<open>File <path> already contains the exact content. No changes made.\<close>; when it is
  stale the message is the staleness message.
\<close>

theorem identical_content_is_refused:
  assumes "wp_FilePath params \<noteq> []" and "wp_Content params \<noteq> []"
    and "filePath = absolute_path e (wp_FilePath params)"
    and "files w filePath = Some (File (wp_Content params) modTime)"
    and "ReadFile_err e filePath = None"
  shows "(\<exists>msg. write_Run e (Inr params) w = (Inr (NewTextErrorResponse msg), w))
       \<and> (modTime \<le> getLastReadTime filePath w \<longrightarrow>
            write_Run e (Inr params) w = (Inr (NewTextErrorResponse (same_content_message filePath)), w) \<and>
            strings_Contains (same_content_message filePath) ''already contains the exact content'')
       \<and> (getLastReadTime filePath w < modTime \<longrightarrow>
            write_Run e (Inr params) w =
              (Inr (NewTextErrorResponse
                      (write_stale_message e filePath modTime (getLastReadTime filePath w))), w))"
proof -
  have c: "write_checks e filePath (wp_Content params) w =
      Some (Inr (NewTextErrorResponse
        (if getLastReadTime filePath w < modTime
         then write_stale_message e filePath modTime (getLastReadTime filePath w)
         else same_content_message filePath)))"
    using assms(4,5) by (simp add: write_checks_def os_ReadFile_def Let_def)
  have "write_Run e (Inr params) w =
      (Inr (NewTextErrorResponse
        (if getLastReadTime filePath w < modTime
         then write_stale_message e filePath modTime (getLastReadTime filePath w)
         else same_content_message filePath)), w)"
    using write_Run_checked[OF assms(1,2), of e w] c assms(3) by simp
  then show ?thesis using same_content_message_contains[of filePath] by auto
qed

text \<open>The theorem on \<open>/wd/a.txt\<close>, read at time 7 (not stale) and at time 3 (stale).\<close>

theorem identical_content_is_refused_witness:
  "write_Run (ex_env True) (Inr \<lparr>wp_FilePath = ''/wd/a.txt'', wp_Content = ''hello''\<rparr>) (ex_world 7) =
     (Inr (NewTextErrorResponse (same_content_message ''/wd/a.txt'')), ex_world 7) \<and>
   strings_Contains (same_content_message ''/wd/a.txt'') ''already contains the exact content'' \<and>
   write_Run (ex_env True) (Inr \<lparr>wp_FilePath = ''/wd/a.txt'', wp_Content = ''hello''\<rparr>) (ex_world 3) =
     (Inr (NewTextErrorResponse (write_stale_message (ex_env True) ''/wd/a.txt'' 5 3)), ex_world 3)"
proof -
  let ?p = "\<lparr>wp_FilePath = ''/wd/a.txt'', wp_Content = ''hello''\<rparr>"
  have p: "wp_FilePath ?p \<noteq> []" "wp_Content ?p \<noteq> []"
    "''/wd/a.txt'' = absolute_path (ex_env True) (wp_FilePath ?p)"
    by (simp_all add: ex_abs)
  have f: "files (ex_world t) ''/wd/a.txt'' = Some (File (wp_Content ?p) 5)" for t
    by (simp add: ex_world_file)
  have rd: "ReadFile_err (ex_env True) ''/wd/a.txt'' = None" by (simp add: ex_env_def)
  from identical_content_is_refused[OF p f rd, of 7] identical_content_is_refused[OF p f rd, of 3]
  show ?thesis by (simp add: ex_world_lastRead)
qed

subsection \<open>The record after a mutating run\<close>

lemma recorded_after:
  assumes "0 < clock w1"
  shows "read_recorded_after_write path (recordFileRead path (recordFileWrite path w1)) \<and>
         getLastReadTime path (recordFileRead path (recordFileWrite path w1)) \<noteq> 0"
  using records_after_write_read[of path w1] assms
  by (auto simp: read_recorded_after_write_def getLastReadTime_def)

lemma write_edit_not_must_read:
  "fst (write_edit e filePath action description text oldContent newContent w) \<noteq> Inl must_read_message"
  by (simp add: write_edit_def must_read_message_def split: sum.splits prod.splits)

lemma replaceContent_not_must_read:
  "getLastReadTime filePath w \<noteq> 0 \<Longrightarrow>
   fst (replaceContent e filePath oldString newString w) \<noteq> Inl must_read_message"
  using write_edit_not_must_read
  by (simp add: replaceContent_def Let_def must_read_message_def edit_stale_message_def
                not_found_message_def multiple_message_def
           split: option.splits node.splits sum.splits)

lemma deleteContent_not_must_read:
  "getLastReadTime filePath w \<noteq> 0 \<Longrightarrow>
   fst (deleteContent e filePath oldString w) \<noteq> Inl must_read_message"
  using write_edit_not_must_read
  by (simp add: deleteContent_def Let_def must_read_message_def edit_stale_message_def
                not_found_message_def multiple_message_def
           split: option.splits node.splits sum.splits)

lemma write_Run_success:
  assumes "write_Run e (Inr params) w = (Inr resp, w')" and "\<not> rs_IsError resp"
  shows "\<exists>w1. clock w1 = clock w \<and>
     w' = recordFileRead (absolute_path e (wp_FilePath params))
            (recordFileWrite (absolute_path e (wp_FilePath params)) w1)"
proof -
  have nc: "write_checks e p c w = Some (Inr r) \<Longrightarrow> rs_IsError r" for p c r
    by (auto simp: write_checks_def Let_def NewTextErrorResponse_def
             split: option.splits node.splits if_splits sum.splits)
  have ne: "wp_FilePath params \<noteq> []" "wp_Content params \<noteq> []"
    using assms by (auto simp: write_Run_def NewTextErrorResponse_def split: if_splits)
  show ?thesis
  proof (cases "write_checks e (absolute_path e (wp_FilePath params)) (wp_Content params) w")
    case (Some r)
    with write_Run_checked[OF ne Some] assms(1) have "r = Inr resp" by simp
    with nc Some assms(2) show ?thesis by blast
  next
    case None
    with assms(1) ne show ?thesis
      by (auto simp: write_Run_def Let_def
               split: sum.splits prod.splits if_splits
               dest!: os_WriteFile_clock os_MkdirAll_clock)
  qed
qed

text \<open>
  Claim C10. When the clock is past the zero time, after a successful replace, delete
  or create by the edit tool, or a successful write by the write tool, the path has a
  record with a write time and a read time, the read at or after the write; the last-read
  time is not zero, and a following replace or delete of the same path does not fail
  with the must-read error, whatever its arguments and environment.
\<close>

theorem mutation_records_write_then_read:
  assumes "0 < clock w"
  shows "(replaceContent e filePath oldString newString w = (Inr r, w') \<or>
          deleteContent e filePath oldString w = (Inr r, w') \<or>
          createNewFile e filePath newString w = (Inr r, w') \<or>
          (write_Run e (Inr params) w = (Inr resp, w') \<and> \<not> rs_IsError resp \<and>
           filePath = absolute_path e (wp_FilePath params)) \<longrightarrow>
          read_recorded_after_write filePath w' \<and>
          getLastReadTime filePath w' \<noteq> 0 \<and>
          fst (replaceContent e2 filePath oldString2 newString2 w') \<noteq> Inl must_read_message \<and>
          fst (deleteContent e2 filePath oldString2 w') \<noteq> Inl must_read_message)"
proof
  assume "replaceContent e filePath oldString newString w = (Inr r, w') \<or>
          deleteContent e filePath oldString w = (Inr r, w') \<or>
          createNewFile e filePath newString w = (Inr r, w') \<or>
          (write_Run e (Inr params) w = (Inr resp, w') \<and> \<not> rs_IsError resp \<and>
           filePath = absolute_path e (wp_FilePath params))"
  then consider
      (replace) "replaceContent e filePath oldString newString w = (Inr r, w')"
    | (delete) "deleteContent e filePath oldString w = (Inr r, w')"
    | (create) "createNewFile e filePath newString w = (Inr r, w')"
    | (overwrite) "write_Run e (Inr params) w = (Inr resp, w')" "\<not> rs_IsError resp"
        "filePath = absolute_path e (wp_FilePath params)"
    by blast
  then have "\<exists>w1. clock w1 = clock w \<and> w' = recordFileRead filePath (recordFileWrite filePath w1)"
  proof cases
    case replace
    then show ?thesis by (rule replaceContent_Inr)
  next
    case delete
    then show ?thesis by (rule deleteContent_Inr)
  next
    case create
    then show ?thesis by (rule createNewFile_Inr)
  next
    case overwrite
    from write_Run_success[OF overwrite(1,2)] overwrite(3) show ?thesis by simp
  qed
  then obtain w1 where w1: "clock w1 = clock w"
    "w' = recordFileRead filePath (recordFileWrite filePath w1)" by blast
  from recorded_after[of w1 filePath] w1 assms
  have rec: "read_recorded_after_write filePath w' \<and> getLastReadTime filePath w' \<noteq> 0" by simp
  with replaceContent_not_must_read[of filePath w' e2 oldString2 newString2]
       deleteContent_not_must_read[of filePath w' e2 oldString2]
  show "read_recorded_after_write filePath w' \<and>
          getLastReadTime filePath w' \<noteq> 0 \<and>
          fst (replaceContent e2 filePath oldString2 newString2 w') \<noteq> Inl must_read_message \<and>
          fst (deleteContent e2 filePath oldString2 w') \<noteq> Inl must_read_message" by blast
qed

lemma ex_replace:
  "\<exists>r w'. replaceContent (ex_env True) ''/wd/a.txt'' ''ell'' ''ipp'' (ex_world 7) = (Inr r, w')"
proof -
  have ix: "strings_Index ''hello'' ''ell'' = 1" "strings_LastIndex ''hello'' ''ell'' = 1"
    by code_simp+
  show ?thesis
    using replaceContent_checked[OF ex_world_file, of 7 "ex_env True" "''ell''" "''ipp''"] ix
    by (simp add: ex_world_lastRead write_edit_def os_WriteFile_def ex_env_def ex_world_file)
qed

lemma ex_delete:
  "\<exists>r w'. deleteContent (ex_env True) ''/wd/a.txt'' ''ell'' (ex_world 7) = (Inr r, w')"
proof -
  have ix: "strings_Index ''hello'' ''ell'' = 1" "strings_LastIndex ''hello'' ''ell'' = 1"
    by code_simp+
  show ?thesis using ix
    by (simp add: deleteContent_def Let_def ex_world_lastRead ex_world_file os_ReadFile_def
                  write_edit_def os_WriteFile_def ex_env_def)
qed

lemma ex_create:
  "\<exists>r w'. createNewFile (ex_env True) ''/wd/b.txt'' ''new'' (ex_world 7) = (Inr r, w')"
  by (simp add: createNewFile_def os_MkdirAll_def os_WriteFile_def ex_env_def ex_world_def)

lemma ex_write:
  "\<exists>resp w'. write_Run (ex_env True) (Inr \<lparr>wp_FilePath = ''/wd/a.txt'', wp_Content = ''bye''\<rparr>) (ex_world 7)
      = (Inr resp, w') \<and> \<not> rs_IsError resp"
proof -
  have c: "write_checks (ex_env True) ''/wd/a.txt'' ''bye'' (ex_world 7) = None"
    by (simp add: write_checks_def Let_def ex_world_file ex_world_lastRead os_ReadFile_def ex_env_def)
  have f: "files (ex_world 7) ''/wd'' = None" "files (ex_world 7) ''/wd/a.txt'' = Some (File ''hello'' 5)"
    by (simp_all add: ex_world_def)
  show ?thesis using c f
    by (simp add: write_Run_def Let_def ex_abs os_MkdirAll_def os_ReadFile_def os_WriteFile_def
                  WithResponseMetadata_def NewTextResponse_def ex_env_fields)
qed

text \<open>
  The theorem on the example state: a replace, a delete and a write of \<open>/wd/a.txt\<close> and
  the creation of \<open>/wd/b.txt\<close>.
\<close>

theorem mutation_records_write_then_read_witness:
  "0 < clock (ex_world 7) \<and>
   (\<exists>r w'. replaceContent (ex_env True) ''/wd/a.txt'' ''ell'' ''ipp'' (ex_world 7) = (Inr r, w') \<and>
      read_recorded_after_write ''/wd/a.txt'' w' \<and>
      fst (replaceContent (ex_env True) ''/wd/a.txt'' ''ipp'' ''ell'' w') \<noteq> Inl must_read_message) \<and>
   (\<exists>r w'. deleteContent (ex_env True) ''/wd/a.txt'' ''ell'' (ex_world 7) = (Inr r, w') \<and>
      read_recorded_after_write ''/wd/a.txt'' w' \<and>
      fst (replaceContent (ex_env True) ''/wd/a.txt'' ''ho'' ''hello'' w') \<noteq> Inl must_read_message) \<and>
   (\<exists>r w'. createNewFile (ex_env True) ''/wd/b.txt'' ''new'' (ex_world 7) = (Inr r, w') \<and>
      read_recorded_after_write ''/wd/b.txt'' w' \<and>
      fst (replaceContent (ex_env True) ''/wd/b.txt'' ''new'' ''old'' w') \<noteq> Inl must_read_message) \<and>
   (\<exists>resp w'. write_Run (ex_env True) (Inr \<lparr>wp_FilePath = ''/wd/a.txt'', wp_Content = ''bye''\<rparr>) (ex_world 7)
        = (Inr resp, w') \<and> \<not> rs_IsError resp \<and>
      read_recorded_after_write ''/wd/a.txt'' w' \<and>
      fst (replaceContent (ex_env True) ''/wd/a.txt'' ''bye'' ''hello'' w') \<noteq> Inl must_read_message)"
proof -
  have c: "0 < clock (ex_world 7)" by (simp add: ex_world_def)
  note T = mutation_records_write_then_read[OF c]
  from ex_replace obtain r1 w1 where
    1: "replaceContent (ex_env True) ''/wd/a.txt'' ''ell'' ''ipp'' (ex_world 7) = (Inr r1, w1)" by blast
  from ex_delete obtain r2 w2 where
    2: "deleteContent (ex_env True) ''/wd/a.txt'' ''ell'' (ex_world 7) = (Inr r2, w2)" by blast
  from ex_create obtain r3 w3 where
    3: "createNewFile (ex_env True) ''/wd/b.txt'' ''new'' (ex_world 7) = (Inr r3, w3)" by blast
  from ex_write obtain r4 w4 where
    4: "write_Run (ex_env True) (Inr \<lparr>wp_FilePath = ''/wd/a.txt'', wp_Content = ''bye''\<rparr>) (ex_world 7)
         = (Inr r4, w4)" "\<not> rs_IsError r4" by blast
  have p: "''/wd/a.txt'' = absolute_path (ex_env True) (wp_FilePath \<lparr>wp_FilePath = ''/wd/a.txt'', wp_Content = ''bye''\<rparr>)"
    by (simp add: ex_abs)
  from T[of "ex_env True" "''/wd/a.txt''" "''ell''" "''ipp''" r1 w1 _ _ "ex_env True" "''ipp''" "''ell''"] 1
  have a: "read_recorded_after_write ''/wd/a.txt'' w1 \<and>
      fst (replaceContent (ex_env True) ''/wd/a.txt'' ''ipp'' ''ell'' w1) \<noteq> Inl must_read_message"
    by blast
  from T[of "ex_env True" "''/wd/a.txt''" "''ell''" _ r2 w2 _ _ "ex_env True" "''ho''" "''hello''"] 2
  have b: "read_recorded_after_write ''/wd/a.txt'' w2 \<and>
      fst (replaceContent (ex_env True) ''/wd/a.txt'' ''ho'' ''hello'' w2) \<noteq> Inl must_read_message"
    by blast
  from T[of "ex_env True" "''/wd/b.txt''" _ "''new''" r3 w3 _ _ "ex_env True" "''new''" "''old''"] 3
  have d: "read_recorded_after_write ''/wd/b.txt'' w3 \<and>
      fst (replaceContent (ex_env True) ''/wd/b.txt'' ''new'' ''old'' w3) \<noteq> Inl must_read_message"
    by blast
  from T[where e = "ex_env True" and filePath = "''/wd/a.txt''" and w' = w4 and resp = r4
         and params = "\<lparr>wp_FilePath = ''/wd/a.txt'', wp_Content = ''bye''\<rparr>"
         and ?e2.0 = "ex_env True" and ?oldString2.0 = "''bye''" and ?newString2.0 = "''hello''"] 4 p
  have e: "read_recorded_after_write ''/wd/a.txt'' w4 \<and>
      fst (replaceContent (ex_env True) ''/wd/a.txt'' ''bye'' ''hello'' w4) \<noteq> Inl must_read_message"
    by blast
  from c a b d e 1 2 3 4 show ?thesis by blast
qed


section \<open>Properties of the retry policy\<close>






section \<open>Properties of the translation of the history\<close>

lemma block_hints_tool_use [simp]: "block_hints (tool_use_blocks unmarshal tcs) = []"
  by (induction tcs) (auto split: option.splits)

lemma block_hints_tool_results [simp]:
  "block_hints (map (\<lambda>r. ToolResultBlock (f r) (g r) (h r)) rs) = []"
  by (induction rs) auto

lemma text_hints_Cons: "text_hints (m # ms) = block_hints (mp_Content m) @ text_hints ms"
  by (simp add: text_hints_def)

lemma text_hints_Nil: "text_hints [] = []"
  by (simp add: text_hints_def)

lemma hints_disabled:
  "\<exists>n. text_hints (convert_loop True unmarshal messages c) = replicate n False"
proof (induction messages arbitrary: c)
  case Nil
  show ?case by (simp add: text_hints_Nil)
next
  case (Cons msg messages)
  from Cons.IH[of c] obtain n where
    n: "text_hints (convert_loop True unmarshal messages c) = replicate n False" by blast
  have "False # replicate n False = replicate (Suc n) False" by simp
  then have s: "\<exists>k. False # replicate n False = replicate k False" by blast
  show ?case
  proof (cases "m_Role msg")
    case User
    with n s show ?thesis by (simp add: text_hints_Cons)
  next
    case Assistant
    with n s show ?thesis by (auto simp: text_hints_Cons Let_def)
  next
    case Tool
    with n show ?thesis by (simp add: text_hints_Cons)
  next
    case System
    with n show ?thesis by simp
  qed
qed

lemma hints_enabled:
  "\<exists>n. text_hints (convert_loop False unmarshal messages c) =
        replicate (min (2 - c) n) True @ replicate (n - (2 - c)) False"
proof (induction messages arbitrary: c)
  case Nil
  have "text_hints (convert_loop False unmarshal [] c) =
      replicate (min (2 - c) 0) True @ replicate (0 - (2 - c)) False"
    by (simp add: text_hints_Nil)
  then show ?case by blast
next
  case (Cons msg messages)
  let ?h = "\<lambda>c. text_hints (convert_loop False unmarshal messages c)"
  have same: "\<exists>n. ?h c = replicate (min (2 - c) n) True @ replicate (n - (2 - c)) False"
    by (rule Cons.IH)
  have marked: "\<exists>n. True # ?h (Suc c) =
      replicate (min (2 - c) n) True @ replicate (n - (2 - c)) False" if "c < 2"
  proof -
    from Cons.IH[of "Suc c"] obtain n where
      n: "?h (Suc c) = replicate (min (2 - Suc c) n) True @ replicate (n - (2 - Suc c)) False"
      by blast
    have "min (2 - c) (Suc n) = Suc (min (2 - Suc c) n)" using that by auto
    moreover have "Suc n - (2 - c) = n - (2 - Suc c)" using that by auto
    ultimately have "True # ?h (Suc c) =
        replicate (min (2 - c) (Suc n)) True @ replicate (Suc n - (2 - c)) False"
      using n by simp
    then show ?thesis by blast
  qed
  have unmarked: "\<exists>n. False # ?h c =
      replicate (min (2 - c) n) True @ replicate (n - (2 - c)) False" if "\<not> c < 2"
  proof -
    from that have z: "2 - c = 0" by simp
    from Cons.IH[of c] obtain n where
      n: "?h c = replicate (min (2 - c) n) True @ replicate (n - (2 - c)) False" by blast
    with z have "False # ?h c =
        replicate (min (2 - c) (Suc n)) True @ replicate (Suc n - (2 - c)) False" by simp
    then show ?thesis by blast
  qed
  show ?case
  proof (cases "m_Role msg")
    case User
    with marked unmarked show ?thesis by (simp add: text_hints_Cons)
  next
    case Assistant
    show ?thesis
    proof (cases "m_Content msg = []")
      case True
      with Assistant same show ?thesis by (simp add: text_hints_Cons Let_def)
    next
      case False
      with Assistant marked unmarked show ?thesis by (simp add: text_hints_Cons Let_def)
    qed
  next
    case Tool
    with same show ?thesis by (simp add: text_hints_Cons)
  next
    case System
    with same show ?thesis by simp
  qed
qed

text \<open>
  Claim C8 as stated fails. Of three user messages converted with the cache enabled, the
  first two carry the hint and the third, the most recent one, does not: the counter
  \<open>cachedBlocks\<close> runs from the start of the history.
\<close>

theorem cache_hints_not_most_recent_counterexample:
  "convertMessages False (\<lambda>input. None :: unit option) [user_text ''a'', user_text ''b'', user_text ''c''] =
     [\<lparr>mp_Role = User, mp_Content = [TextBlock ''a'' True]\<rparr>,
      \<lparr>mp_Role = User, mp_Content = [TextBlock ''b'' True]\<rparr>,
      \<lparr>mp_Role = User, mp_Content = [TextBlock ''c'' False]\<rparr>] \<and>
   text_hints (convertMessages False (\<lambda>input. None :: unit option)
       [user_text ''a'', user_text ''b'', user_text ''c'']) = [True, True, False]"
  by (simp add: convertMessages_def user_text_def text_hints_def)

text \<open>
  Claim C8, amended. In every converted history at most two text blocks carry the
  ephemeral cache hint; with the cache enabled the marked blocks are the earliest text
  blocks of the history (the first two, or all of them when there are fewer) and every
  later one is unmarked; with the cache disabled no text block carries the hint.
\<close>

theorem cache_hints_mark_earliest_blocks:
  "length (filter (\<lambda>hint. hint) (text_hints (convertMessages disableCache unmarshal messages))) \<le> 2
   \<and> (\<not> disableCache \<longrightarrow>
        (\<exists>n. text_hints (convertMessages disableCache unmarshal messages) =
              replicate (min 2 n) True @ replicate (n - 2) False))
   \<and> (disableCache \<longrightarrow> True \<notin> set (text_hints (convertMessages disableCache unmarshal messages)))"
proof (cases disableCache)
  case True
  from hints_disabled[of unmarshal messages 0] obtain n where
    "text_hints (convert_loop True unmarshal messages 0) = replicate n False" by blast
  with True show ?thesis by (simp add: convertMessages_def)
next
  case False
  from hints_enabled[of unmarshal messages 0] obtain n where
    n: "text_hints (convert_loop False unmarshal messages 0) =
        replicate (min 2 n) True @ replicate (n - 2) False" by auto
  have "length (filter (\<lambda>hint. hint) (replicate (min 2 n) True @ replicate (n - 2) False)) \<le> 2"
    by simp
  with False n show ?thesis by (auto simp: convertMessages_def)
qed

text \<open>The theorem on three user messages, with the cache enabled and disabled.\<close>

theorem cache_hints_mark_earliest_blocks_witness:
  "text_hints (convertMessages False (\<lambda>input. None :: unit option)
       [user_text ''a'', user_text ''b'', user_text ''c'']) = [True, True, False] \<and>
   True \<notin> set (text_hints (convertMessages True (\<lambda>input. None :: unit option)
       [user_text ''a'', user_text ''b'', user_text ''c'']))"
proof -
  let ?ms = "[user_text ''a'', user_text ''b'', user_text ''c'']"
  let ?u = "\<lambda>input. None :: unit option"
  have l: "length (text_hints (convertMessages False ?u ?ms)) = 3"
    by (simp add: convertMessages_def user_text_def text_hints_def)
  from cache_hints_mark_earliest_blocks[of False ?u ?ms] obtain n where
    n: "text_hints (convertMessages False ?u ?ms) = replicate (min 2 n) True @ replicate (n - 2) False"
    by auto
  with l have "min 2 n + (n - 2) = 3" by (metis length_append length_replicate)
  then have "n = 3" by auto
  with n have a: "text_hints (convertMessages False ?u ?ms) = [True, True, False]"
    by (simp add: numeral_eq_Suc)
  from cache_hints_mark_earliest_blocks[of True ?u ?ms]
  have b: "True \<notin> set (text_hints (convertMessages True ?u ?ms))" by simp
  from a b show ?thesis by blast
qed


section \<open>Properties of the title generation\<close>

text \<open>
  Claim C9 as stated fails. The session \<open>s1\<close> has no title, but it has a message (its
  earlier title request had failed, say); \<open>NewMessage\<close> on it starts no title
  goroutine: the condition is that the session has no messages, not that it has no
  title.
\<close>

theorem title_task_not_launched_counterexample:
  "Sessions_Get ex_sessions ''s1'' =
     Inr \<lparr>s_ID = ''s1'', s_Title = [], s_PromptTokens = 0, s_CompletionTokens = 0\<rparr> \<and>
   fst (NewMessage_begin ex_messages ''s1'' ''and again'') = False"
  by (simp add: Sessions_Get_def ex_sessions_def NewMessage_begin_def Messages_List_def
                ex_messages_def user_text_def Messages_Create_def Let_def)

text \<open>
  Claim C9, amended. \<open>NewMessage\<close> starts the title goroutine exactly when the session
  has no messages yet (and they could be listed). The goroutine calls the provider under
  a context with a timeout of 30 seconds, with the title prompt as system message, the
  user's text as the only message and the API model of the configured \<open>models.big\<close>.
  When the call fails, the failure is logged and the session store is left as it was;
  when it succeeds on a session the store holds, the title of the session becomes the
  concatenation of the texts of the response blocks.
\<close>

theorem title_task_on_first_message:
  "(fst (NewMessage_begin store sid content) \<longleftrightarrow>
      ms_err store = None \<and> filter (\<lambda>m. m_SessionID m = sid) (ms_rows store) = [])
   \<and> (\<forall>err. client 30 \<lparr>rq_Model = md_APIModel (SupportedModels bigModel), rq_MaxTokens = 5000,
                  rq_Messages = [content], rq_System = titleSystemMessage\<rparr> = Inl err \<longrightarrow>
         title_task client bigModel sid content sessions =
           (sessions, [''failed to generate session title: '' @ err]))
   \<and> (\<forall>blocks session.
         client 30 \<lparr>rq_Model = md_APIModel (SupportedModels bigModel), rq_MaxTokens = 5000,
                  rq_Messages = [content], rq_System = titleSystemMessage\<rparr> = Inr blocks \<and>
         ss_err sessions = None \<and> ss_rows sessions sid = Some session \<longrightarrow>
         title_task client bigModel sid content sessions =
           (sessions\<lparr>ss_rows := (ss_rows sessions)(s_ID session \<mapsto> session\<lparr>s_Title := concat blocks\<rparr>)\<rparr>, []))"
proof (intro conjI)
  show "fst (NewMessage_begin store sid content) \<longleftrightarrow>
      ms_err store = None \<and> filter (\<lambda>m. m_SessionID m = sid) (ms_rows store) = []"
    by (simp add: NewMessage_begin_def Messages_List_def split: option.splits)
  show "\<forall>err. client 30 \<lparr>rq_Model = md_APIModel (SupportedModels bigModel), rq_MaxTokens = 5000,
                  rq_Messages = [content], rq_System = titleSystemMessage\<rparr> = Inl err \<longrightarrow>
         title_task client bigModel sid content sessions =
           (sessions, [''failed to generate session title: '' @ err])"
    by (simp add: title_task_def generateSessionTitle_def Let_def)
  show "\<forall>blocks session.
         client 30 \<lparr>rq_Model = md_APIModel (SupportedModels bigModel), rq_MaxTokens = 5000,
                  rq_Messages = [content], rq_System = titleSystemMessage\<rparr> = Inr blocks \<and>
         ss_err sessions = None \<and> ss_rows sessions sid = Some session \<longrightarrow>
         title_task client bigModel sid content sessions =
           (sessions\<lparr>ss_rows := (ss_rows sessions)(s_ID session \<mapsto> session\<lparr>s_Title := concat blocks\<rparr>)\<rparr>, [])"
    by (simp add: title_task_def generateSessionTitle_def Let_def Sessions_Get_def Sessions_Save_def)
qed

text \<open>
  The theorem on the first message of the session \<open>s1\<close>, with a provider that fails
  and one that answers.
\<close>

theorem title_task_on_first_message_witness:
  "fst (NewMessage_begin \<lparr>ms_rows = [], ms_err = None\<rparr> ''s1'' ''fix the build please'') \<and>
   title_task (ex_client False) ''claude-3.7-sonnet'' ''s1'' ''fix the build please'' ex_sessions =
     (ex_sessions, [''failed to generate session title: context deadline exceeded'']) \<and>
   Sessions_Get (fst (title_task (ex_client True) ''claude-3.7-sonnet'' ''s1'' ''fix the build please''
                        ex_sessions)) ''s1'' =
     Inr \<lparr>s_ID = ''s1'', s_Title = ''Fix the build'', s_PromptTokens = 0, s_CompletionTokens = 0\<rparr>"
proof -
  let ?rq = "\<lparr>rq_Model = md_APIModel (SupportedModels ''claude-3.7-sonnet''), rq_MaxTokens = 5000,
              rq_Messages = [''fix the build please''], rq_System = titleSystemMessage\<rparr>"
  have m: "md_APIModel (SupportedModels ''claude-3.7-sonnet'') = ''claude-3-7-sonnet-latest''"
    by (simp add: SupportedModels_def)
  have f: "ex_client False 30 ?rq = Inl ''context deadline exceeded''"
    by (simp add: ex_client_def)
  have t: "ex_client True 30 ?rq = Inr [''Fix '', ''the build'']"
    by (simp add: ex_client_def m)
  have s: "ss_err ex_sessions = None \<and> ss_rows ex_sessions ''s1'' =
      Some \<lparr>s_ID = ''s1'', s_Title = [], s_PromptTokens = 0, s_CompletionTokens = 0\<rparr>"
    by (simp add: ex_sessions_def)
  note T = title_task_on_first_message[of "\<lparr>ms_rows = [], ms_err = None\<rparr>" "''s1''"
             "''fix the build please''" _ "''claude-3.7-sonnet''" ex_sessions]
  from T[of "ex_client False"] have a:
    "fst (NewMessage_begin \<lparr>ms_rows = [], ms_err = None\<rparr> ''s1'' ''fix the build please'')"
    by simp
  from T[of "ex_client False", THEN conjunct2, THEN conjunct1, rule_format, OF f]
  have b: "title_task (ex_client False) ''claude-3.7-sonnet'' ''s1'' ''fix the build please'' ex_sessions =
     (ex_sessions, [''failed to generate session title: context deadline exceeded''])"
    by simp
  from T[of "ex_client True", THEN conjunct2, THEN conjunct2, rule_format, OF conjI[OF t s]]
  have c: "Sessions_Get (fst (title_task (ex_client True) ''claude-3.7-sonnet'' ''s1'' ''fix the build please''
                        ex_sessions)) ''s1'' =
     Inr \<lparr>s_ID = ''s1'', s_Title = ''Fix the build'', s_PromptTokens = 0, s_CompletionTokens = 0\<rparr>"
    by (simp add: Sessions_Get_def ex_sessions_def)
  from a b c show ?thesis by blast
qed


end
